theory Spec2Isabelle
  imports Main "HOL-Library.Word" "HOL-Library.AList"
begin

unbundle bit_operations_syntax

section \<open>The Cemuhook DSU server of steam-gyro-for-cemuhook\<close>

text \<open>
  A shallow embedding of the class \<open>UdpServer\<close> (the file that defines
  \<open>beginPacket\<close>, \<open>finishPacket\<close>, \<open>sendPacket\<close>, \<open>onMessage\<close>, \<open>handleReport\<close>,
  \<open>getClientsForReport\<close> and \<open>removeController\<close>).

  JavaScript numbers that hold integers are \<open>int\<close>; indices and lengths are \<open>nat\<close>;
  a \<open>Buffer\<close> is a list of bytes. Every \<open>throw\<close> of the source and of the Buffer
  methods it calls is a value of type \<open>error\<close>, returned as \<open>Inl\<close>.
\<close>

subsection \<open>Errors\<close>

datatype error =
    RangeError                      \<comment> \<open>a Buffer read or write outside the buffer, or a value outside the field\<close>
  | TypeError                       \<comment> \<open>a property of \<open>null\<close> or \<open>undefined\<close> is used\<close>
  | BufferTooSmall nat              \<comment> \<open>"beginPacket" buffer size is too small\<close>
  | OutdatedProtocol int            \<comment> \<open>outdated protocol\<close>
  | NegativePacketSize int          \<comment> \<open>negative packet size received\<close>
  | CrcMismatch int int             \<comment> \<open>crc mismatch: received, computed\<close>
  | PadRequestsOutOfRange int       \<comment> \<open>number of pad requests is out of range\<close>
  | PadIndexOutOfRange nat int      \<comment> \<open>request index for pad i is out of range\<close>

definition bindE :: "error + 'a \<Rightarrow> ('a \<Rightarrow> error + 'b) \<Rightarrow> error + 'b" where
  "bindE m f = (case m of Inl e \<Rightarrow> Inl e | Inr x \<Rightarrow> f x)"

subsection \<open>Buffers\<close>

type_synonym byte = "8 word"
type_synonym buffer = "byte list"

text \<open>\<open>Buffer.alloc(n)\<close>: \<open>n\<close> zero bytes.\<close>

definition alloc :: "nat \<Rightarrow> buffer" where
  "alloc n = replicate n 0"

text \<open>\<open>buf[i]\<close>: the byte, or \<open>undefined\<close> outside the buffer.\<close>

definition getByte :: "buffer \<Rightarrow> nat \<Rightarrow> int option" where
  "getByte buf i = (if i < length buf then Some (uint (buf ! i)) else None)"

text \<open>
  \<open>buf[i] = v\<close> on a \<open>Uint8Array\<close>: the number is reduced modulo 256; a store outside the
  buffer is ignored.
\<close>

definition setByte :: "buffer \<Rightarrow> nat \<Rightarrow> int \<Rightarrow> buffer" where
  "setByte buf i v = (if i < length buf then buf[i := word_of_int v] else buf)"

text \<open>\<open>buf[i] |= m\<close>.\<close>

definition orByte :: "buffer \<Rightarrow> nat \<Rightarrow> byte \<Rightarrow> buffer" where
  "orByte buf i m = (if i < length buf then buf[i := (buf ! i) OR m] else buf)"

text \<open>
  The integer writes and reads of \<open>Buffer\<close>, as in the Node 10 runtime of Electron 4
  (package.json): the third argument \<open>noAssert\<close> is no longer read, a value outside the
  field's range and an offset outside the buffer both raise a range error.
\<close>

definition writeUInt16LE :: "buffer \<Rightarrow> int \<Rightarrow> nat \<Rightarrow> error + buffer" where
  "writeUInt16LE buf v off =
     (if v < 0 \<or> 65535 < v then Inl RangeError
      else if length buf < off + 2 then Inl RangeError
      else Inr (buf[off := word_of_int v, off + 1 := word_of_int (v div 256)]))"

definition writeUInt32LE :: "buffer \<Rightarrow> int \<Rightarrow> nat \<Rightarrow> error + buffer" where
  "writeUInt32LE buf v off =
     (if v < 0 \<or> 4294967295 < v then Inl RangeError
      else if length buf < off + 4 then Inl RangeError
      else Inr (buf[off := word_of_int v, off + 1 := word_of_int (v div 256),
                    off + 2 := word_of_int (v div 65536),
                    off + 3 := word_of_int (v div 16777216)]))"

definition readUInt16LE :: "buffer \<Rightarrow> nat \<Rightarrow> error + int" where
  "readUInt16LE buf off =
     (if length buf < off + 2 then Inl RangeError
      else Inr (uint (buf ! off) + 256 * uint (buf ! (off + 1))))"

definition readUInt32LE :: "buffer \<Rightarrow> nat \<Rightarrow> error + int" where
  "readUInt32LE buf off =
     (if length buf < off + 4 then Inl RangeError
      else Inr (uint (buf ! off) + 256 * uint (buf ! (off + 1))
                + 65536 * uint (buf ! (off + 2)) + 16777216 * uint (buf ! (off + 3))))"

text \<open>\<open>readInt32LE\<close>: the same four bytes read as two's complement.\<close>

definition readInt32LE :: "buffer \<Rightarrow> nat \<Rightarrow> error + int" where
  "readInt32LE buf off =
     (case readUInt32LE buf off of
        Inl e \<Rightarrow> Inl e
      | Inr u \<Rightarrow> Inr (if 2147483648 \<le> u then u - 4294967296 else u))"

text \<open>
  \<open>writeFloatLE\<close> stores the four bytes of the IEEE-754 single-precision image of its
  argument. A float field of a report is carried as that 32-bit image.
\<close>

type_synonym f32 = "32 word"

definition writeFloatLE :: "buffer \<Rightarrow> f32 \<Rightarrow> nat \<Rightarrow> error + buffer" where
  "writeFloatLE buf v off =
     (if length buf < off + 4 then Inl RangeError
      else Inr (buf[off := ucast v, off + 1 := ucast (drop_bit 8 v),
                    off + 2 := ucast (drop_bit 16 v), off + 3 := ucast (drop_bit 24 v)]))"

text \<open>
  \<open>buf.fill(data, index)\<close>: from \<open>index\<close> to the end, \<open>data\<close> repeated as often as it
  takes.
\<close>

definition fill :: "buffer \<Rightarrow> buffer \<Rightarrow> nat \<Rightarrow> buffer" where
  "fill buf data index =
     take index buf @ take (length buf - index) (concat (replicate (length buf) data))"

subsection \<open>CRC-32\<close>

text \<open>
  \<open>crc32\<close> of the package \<open>crc\<close>: the CRC-32 of IEEE 802.3 (reflected polynomial
  \<open>EDB88320\<close>, initial value and final complement \<open>FFFFFFFF\<close>), returned unsigned. The
  package looks each byte up in a table; the table's entry for a byte is the eight
  shift-and-xor steps written here.
\<close>

definition crc32_shift :: "32 word \<Rightarrow> 32 word" where
  "crc32_shift c = (if bit c 0 then drop_bit 1 c XOR 0xEDB88320 else drop_bit 1 c)"

definition crc32_byte :: "32 word \<Rightarrow> byte \<Rightarrow> 32 word" where
  "crc32_byte c b =
     crc32_shift (crc32_shift (crc32_shift (crc32_shift
       (crc32_shift (crc32_shift (crc32_shift (crc32_shift (c XOR ucast b))))))))"

definition crc32 :: "buffer \<Rightarrow> int" where
  "crc32 data = uint (foldl crc32_byte 0xFFFFFFFF data XOR 0xFFFFFFFF)"

subsection \<open>Framing\<close>

definition charCode :: "char \<Rightarrow> int" where
  "charCode character = int (of_char character)"

text \<open>
  \<open>beginPacket\<close> writes the 16-byte header and returns the buffer with the index after
  it.
\<close>

definition beginPacket :: "int \<Rightarrow> buffer \<Rightarrow> int \<Rightarrow> error + (buffer \<times> nat)" where
  "beginPacket serverId data protocolVer =
     (if 16 \<le> length data then
        let data = setByte data 0 (charCode CHR ''D'');
            data = setByte data 1 (charCode CHR ''S'');
            data = setByte data 2 (charCode CHR ''U'');
            data = setByte data 3 (charCode CHR ''S'')
        in bindE (writeUInt16LE data protocolVer 4) (\<lambda>data.
           bindE (writeUInt16LE data (int (length data) - 16) 6) (\<lambda>data.
           bindE (writeUInt32LE data 0 8) (\<lambda>data.
           bindE (writeUInt32LE data serverId 12) (\<lambda>data.
           Inr (data, 16)))))
      else Inl (BufferTooSmall (length data)))"

definition finishPacket :: "buffer \<Rightarrow> error + buffer" where
  "finishPacket data = writeUInt32LE data (crc32 data) 8"

subsection \<open>Strings: \<open>split\<close>, \<open>parseInt\<close>, \<open>toString(16)\<close>, \<open>join\<close>\<close>

text \<open>\<open>s.split(c)\<close> for a one-character separator: the empty string gives one empty part.\<close>

fun split :: "char \<Rightarrow> string \<Rightarrow> string list" where
  "split c [] = [[]]"
| "split c (x # xs) =
     (if x = c then [] # split c xs
      else (case split c xs of [] \<Rightarrow> [[x]] | p # ps \<Rightarrow> (x # p) # ps))"

definition hexDigit :: "char \<Rightarrow> int option" where
  "hexDigit c =
     (let n = (of_char c :: nat) in
      if 48 \<le> n \<and> n \<le> 57 then Some (int n - 48)
      else if 97 \<le> n \<and> n \<le> 102 then Some (int n - 87)
      else if 65 \<le> n \<and> n \<le> 70 then Some (int n - 55)
      else None)"

fun hexPrefix :: "string \<Rightarrow> int list" where
  "hexPrefix [] = []"
| "hexPrefix (c # cs) = (case hexDigit c of None \<Rightarrow> [] | Some d \<Rightarrow> d # hexPrefix cs)"

definition isWhiteSpace :: "char \<Rightarrow> bool" where
  "isWhiteSpace c = ((of_char c :: nat) \<in> {9, 10, 11, 12, 13, 32, 160})"

text \<open>
  \<open>parseInt(part, 16)\<close> on a string of 8-bit characters: leading white space, a sign, a
  prefix \<open>0x\<close>, then the longest run of hexadecimal digits; \<open>None\<close> is \<open>NaN\<close>. (A
  JavaScript number is exact up to 13 hexadecimal digits; longer runs are not rounded
  here.)
\<close>

definition parseInt16 :: "string \<Rightarrow> int option" where
  "parseInt16 s =
     (let s = dropWhile isWhiteSpace s;
          sign = (case s of [] \<Rightarrow> 1 | c # r \<Rightarrow> if c = CHR ''-'' then - 1 else (1::int));
          s = (case s of [] \<Rightarrow> s | c # r \<Rightarrow> if c = CHR ''-'' \<or> c = CHR ''+'' then r else s);
          s = (case s of a # b # r \<Rightarrow>
                 if a = CHR ''0'' \<and> (b = CHR ''x'' \<or> b = CHR ''X'') then r else s
               | _ \<Rightarrow> s);
          ds = hexPrefix s
      in if ds = [] then None else Some (sign * foldl (\<lambda>a d. 16 * a + d) 0 ds))"

definition hexChar :: "nat \<Rightarrow> char" where
  "hexChar n = ''0123456789abcdef'' ! n"

text \<open>\<open>n.toString(16)\<close> for a number \<open>n \<ge> 0\<close>: lowercase digits, no padding.\<close>

fun toString16 :: "nat \<Rightarrow> string" where
  "toString16 n = (if n < 16 then [hexChar n] else toString16 (n div 16) @ [hexChar (n mod 16)])"

declare toString16.simps [simp del]

fun join :: "string \<Rightarrow> string list \<Rightarrow> string" where
  "join sep [] = []"
| "join sep [p] = p"
| "join sep (p # q # ps) = p @ sep @ join sep (q # ps)"

subsection \<open>Controller data\<close>

text \<open>
  Modelled from the spec: the interfaces \<open>DualshockMeta\<close>, \<open>DualshockReport\<close> and
  \<open>DualshockData\<close>, which the server imports from the controller API and whose
  declarations are not among the sources. The fields are the ones the server reads, a
  nested field \<open>report.button.dPad.LEFT\<close> written \<open>button_dPad_LEFT\<close>. Numbers are
  \<open>int\<close>, the MAC address is a string or \<open>null\<close> (the port-info path tests it against
  \<open>null\<close>).
\<close>

record DualshockMeta =
  padId :: int
  state :: int
  model :: int
  connectionType :: int
  macAddress :: "string option"
  batteryStatus :: int
  isActive :: bool

record DualshockReport =
  packetCounter :: int
  button_dPad_UP :: bool
  button_dPad_DOWN :: bool
  button_dPad_LEFT :: bool
  button_dPad_RIGHT :: bool
  button_options :: bool
  button_share :: bool
  button_R3 :: bool
  button_L3 :: bool
  button_SQUARE :: bool
  button_CROSS :: bool
  button_CIRCLE :: bool
  button_TRIANGLE :: bool
  button_R1 :: bool
  button_L1 :: bool
  button_R2 :: bool
  button_L2 :: bool
  button_PS :: bool
  button_touch :: bool
  position_left_x :: int
  position_left_y :: int
  position_right_x :: int
  position_right_y :: int
  trigger_R2 :: int
  trigger_L2 :: int
  trackPad_first_isActive :: bool
  trackPad_first_id :: int
  trackPad_first_x :: int
  trackPad_first_y :: int
  trackPad_second_isActive :: bool
  trackPad_second_id :: int
  trackPad_second_x :: int
  trackPad_second_y :: int
  motionTimestamp_low :: int
  motionTimestamp_high :: int
  accelerometer_x :: f32
  accelerometer_y :: f32
  accelerometer_z :: f32
  gyro_x :: f32
  gyro_y :: f32
  gyro_z :: f32

record DualshockData =
  meta :: DualshockMeta
  report :: DualshockReport

text \<open>
  A controller, as far as the server looks at it: the getter \<open>dualShockMeta\<close>, which is
  \<open>null\<close> while the device is closed.
\<close>

record GenericDualshockController =
  dualShockMeta :: "DualshockMeta option"

text \<open>A slot of \<open>controllers\<close>: the device and the handle of its \<open>Subscription\<close>.\<close>

record slot =
  device :: GenericDualshockController
  subscription :: nat

subsection \<open>Clients\<close>

text \<open>
  An \<open>AddressInfo\<close> object as the socket hands it to \<open>onMessage\<close>. \<open>ref\<close> is the identity
  of the object: a JavaScript \<open>Map\<close> compares object keys by identity, not by their
  fields.
\<close>

record AddressInfo =
  ref :: nat
  address :: string
  family :: string
  port :: int

text \<open>
  Modelled from the spec: the class \<open>ClientRequestTimes\<close>, which the server imports from
  \<open>./client-request-times\<close> and whose declaration is not among the sources. The three
  fields are the ones \<open>getClientsForReport\<close> reads; \<open>timeForPadByMac\<close> is a \<open>Map\<close> from MAC
  strings to times, kept as the list of its entries in insertion order.
\<close>

record ClientRequestTimes =
  timeForAllPads :: int
  timeForPadById :: "int list"
  timeForPadByMac :: "(string \<times> int) list"

text \<open>
  The constants of \<open>UdpServerDefaults\<close> and \<open>UdpServerMessage\<close>, and the constructor and
  the method \<open>registerPadRequest\<close> of \<open>ClientRequestTimes\<close>, are parameters of the model:
  their declarations are not among the sources. \<open>registerPadRequest\<close> gets the flags, the
  id, the MAC string and the time of the call (its \<open>Date.now()\<close>).
\<close>

record env =
  MaxProtocolVer :: int
  ClientTimeoutLimit :: int
  DSUC_VersionReq :: int
  DSUS_VersionRsp :: int
  DSUC_ListPorts :: int
  DSUS_PortInfo :: int
  DSUC_PadDataReq :: int
  DSUS_PadDataRsp :: int
  newClientRequestTimes :: ClientRequestTimes
  registerPadRequest :: "int option \<Rightarrow> int option \<Rightarrow> string \<Rightarrow> int \<Rightarrow> ClientRequestTimes \<Rightarrow> ClientRequestTimes"

type_synonym client_map = "(AddressInfo \<times> ClientRequestTimes) list"

text \<open>The operations of \<open>Map<AddressInfo, ClientRequestTimes>\<close>, entries in insertion order.\<close>

definition mapHas :: "client_map \<Rightarrow> AddressInfo \<Rightarrow> bool" where
  "mapHas m k = list_ex (\<lambda>(k', v). ref k' = ref k) m"

definition mapSet :: "client_map \<Rightarrow> AddressInfo \<Rightarrow> ClientRequestTimes \<Rightarrow> client_map" where
  "mapSet m k v =
     (if mapHas m k then map (\<lambda>(k', v'). if ref k' = ref k then (k', v) else (k', v')) m
      else m @ [(k, v)])"

definition mapDelete :: "client_map \<Rightarrow> AddressInfo \<Rightarrow> client_map" where
  "mapDelete m k = filter (\<lambda>(k', v). ref k' \<noteq> ref k) m"

text \<open>\<open>m.get(k)!.f()\<close> where \<open>f\<close> changes the object it is called on.\<close>

definition mapUpdate :: "client_map \<Rightarrow> AddressInfo \<Rightarrow> (ClientRequestTimes \<Rightarrow> ClientRequestTimes) \<Rightarrow> error + client_map" where
  "mapUpdate m k f =
     (if mapHas m k then Inr (map (\<lambda>(k', v). if ref k' = ref k then (k', f v) else (k', v)) m)
      else Inl TypeError)"

subsection \<open>The server\<close>

record UdpServer =
  socket :: "nat option"
  serverId :: int
  controllers :: "slot option list"
  clients :: client_map

text \<open>
  What \<open>randomJS().integer(0, 4294967296)\<close> can return: \<open>integer(min, max)\<close> of random-js
  draws an integer from the range with both ends included.
\<close>

definition serverId_drawn :: "int \<Rightarrow> bool" where
  "serverId_drawn n = (0 \<le> n \<and> n \<le> 4294967296)"

text \<open>A new server, given the number drawn for \<open>serverId\<close>.\<close>

definition newUdpServer :: "int \<Rightarrow> UdpServer" where
  "newUdpServer drawn =
     \<lparr>socket = None, serverId = drawn, controllers = replicate 4 None, clients = []\<rparr>"

text \<open>
  \<open>start\<close> and \<open>stop\<close>, without the promise around them: \<open>start\<close> stops first and then
  holds the new socket, \<open>stop\<close> closes the socket and forgets it.
\<close>

definition stop :: "UdpServer \<Rightarrow> UdpServer" where
  "stop s = (case socket s of None \<Rightarrow> s | Some sock \<Rightarrow> s\<lparr>socket := None\<rparr>)"

definition start :: "nat \<Rightarrow> UdpServer \<Rightarrow> UdpServer" where
  "start sock s = (stop s)\<lparr>socket := Some sock\<rparr>"

definition clearClients :: "UdpServer \<Rightarrow> UdpServer" where
  "clearClients s = s\<lparr>clients := []\<rparr>"

text \<open>A datagram handed to \<open>socket.send\<close>.\<close>

record datagram =
  dest_port :: int
  dest_address :: string
  payload :: buffer

subsection \<open>The controller slots\<close>

text \<open>
  \<open>addController\<close>: the first empty slot takes the controller and the new subscription
  (\<open>sub\<close> is the handle \<open>new Subscription()\<close> returns).
\<close>

fun addFirstEmpty :: "slot option list \<Rightarrow> slot \<Rightarrow> (slot option list) option" where
  "addFirstEmpty [] c = None"
| "addFirstEmpty (None # rest) c = Some (Some c # rest)"
| "addFirstEmpty (Some d # rest) c =
     (case addFirstEmpty rest c of None \<Rightarrow> None | Some rest' \<Rightarrow> Some (Some d # rest'))"

definition addController :: "GenericDualshockController \<Rightarrow> nat \<Rightarrow> UdpServer \<Rightarrow> UdpServer \<times> bool" where
  "addController controller sub s =
     (case addFirstEmpty (controllers s) \<lparr>device = controller, subscription = sub\<rparr> of
        None \<Rightarrow> (s, False)
      | Some cs \<Rightarrow> (s\<lparr>controllers := cs\<rparr>, True))"

text \<open>
  \<open>removeController(index)\<close> for a number: the new slots and the subscriptions that were
  unsubscribed.
\<close>

definition removeControllerAt :: "int \<Rightarrow> slot option list \<Rightarrow> slot option list \<times> nat list" where
  "removeControllerAt index cs =
     (if 0 < index \<and> index < int (length cs) then
        (case cs ! nat index of
           None \<Rightarrow> (cs, [])
         | Some c \<Rightarrow> (cs[nat index := None], [subscription c]))
      else (cs, []))"

text \<open>The loop of \<open>removeController()\<close>: \<open>removeController(i)\<close> for the indices in turn.\<close>

fun removeControllerLoop :: "nat list \<Rightarrow> slot option list \<Rightarrow> slot option list \<times> nat list" where
  "removeControllerLoop [] cs = (cs, [])"
| "removeControllerLoop (i # is) cs =
     (let (cs', u) = removeControllerAt (int i) cs;
          (cs'', us) = removeControllerLoop is cs'
      in (cs'', u @ us))"

definition removeController :: "int option \<Rightarrow> UdpServer \<Rightarrow> UdpServer \<times> nat list" where
  "removeController index s =
     (case index of
        None \<Rightarrow>
          (let (cs, us) = removeControllerLoop [0 ..< length (controllers s)] (controllers s)
           in (s\<lparr>controllers := cs\<rparr>, us))
      | Some i \<Rightarrow>
          (let (cs, us) = removeControllerAt i (controllers s)
           in (s\<lparr>controllers := cs\<rparr>, us)))"

subsection \<open>Sending\<close>

text \<open>
  \<open>sendPacket\<close>: the datagram handed to \<open>socket.send\<close>. (What the callback of \<open>send\<close>
  reports later is the transport's, not the server's.)
\<close>

definition sendPacket :: "UdpServer \<Rightarrow> AddressInfo \<Rightarrow> buffer \<Rightarrow> int \<Rightarrow> error + datagram" where
  "sendPacket s clientEndpoint data protocolVer =
     (let buffer = alloc (length data + 16) in
      bindE (beginPacket (serverId s) buffer protocolVer) (\<lambda>(buffer, index).
      let buffer = fill buffer data index in
      bindE (finishPacket buffer) (\<lambda>buffer.
      case socket s of
        None \<Rightarrow> Inl TypeError
      | Some sock \<Rightarrow>
          Inr \<lparr>dest_port = port clientEndpoint, dest_address = address clientEndpoint,
               payload = buffer\<rparr>)))"

subsection \<open>A buffer with its write index\<close>

text \<open>
  \<open>handleReport\<close> and the port-info reply fill \<open>outBuffer\<close> through \<open>outIndex\<close>. The pair of
  both is a cursor, and each statement of the source is one step on it.
\<close>

type_synonym cursor = "buffer \<times> nat"

text \<open>\<open>outBuffer[outIndex++] = v\<close>\<close>

definition put :: "cursor \<Rightarrow> int \<Rightarrow> cursor" where
  "put st v = (case st of (b, i) \<Rightarrow> (setByte b i v, i + 1))"

text \<open>\<open>outBuffer[++outIndex] = v\<close>\<close>

definition putNext :: "cursor \<Rightarrow> int \<Rightarrow> cursor" where
  "putNext st v = (case st of (b, i) \<Rightarrow> (setByte b (i + 1) v, i + 1))"

text \<open>\<open>outBuffer[outIndex] = v\<close>\<close>

definition putHere :: "cursor \<Rightarrow> int \<Rightarrow> cursor" where
  "putHere st v = (case st of (b, i) \<Rightarrow> (setByte b i v, i))"

text \<open>\<open>if (c) { outBuffer[outIndex] |= m; }\<close>\<close>

definition orIf :: "bool \<Rightarrow> cursor \<Rightarrow> byte \<Rightarrow> cursor" where
  "orIf c st m = (case st of (b, i) \<Rightarrow> if c then (orByte b i m, i) else (b, i))"

text \<open>\<open>outIndex++\<close>\<close>

definition skip :: "cursor \<Rightarrow> cursor" where
  "skip st = (case st of (b, i) \<Rightarrow> (b, i + 1))"

text \<open>\<open>outBuffer.writeUInt16LE(v, outIndex, true); outIndex += 2\<close>, and the like.\<close>

definition put16 :: "cursor \<Rightarrow> int \<Rightarrow> error + cursor" where
  "put16 st v = (case st of (b, i) \<Rightarrow> bindE (writeUInt16LE b v i) (\<lambda>b. Inr (b, i + 2)))"

definition put32 :: "cursor \<Rightarrow> int \<Rightarrow> error + cursor" where
  "put32 st v = (case st of (b, i) \<Rightarrow> bindE (writeUInt32LE b v i) (\<lambda>b. Inr (b, i + 4)))"

definition putFloat :: "cursor \<Rightarrow> f32 \<Rightarrow> error + cursor" where
  "putFloat st v = (case st of (b, i) \<Rightarrow> bindE (writeFloatLE b v i) (\<lambda>b. Inr (b, i + 4)))"

text \<open>
  \<open>for (const macPart of mac) { outBuffer[outIndex++] = macPart; }\<close>, where a part that is
  \<open>NaN\<close> is stored as 0.
\<close>

definition putMac :: "int option list \<Rightarrow> cursor \<Rightarrow> cursor" where
  "putMac mac st = fold (\<lambda>macPart st. put st (case macPart of None \<Rightarrow> 0 | Some v \<Rightarrow> v)) mac st"

text \<open>\<open>x >>> 0\<close> for an integer.\<close>

definition toUint32 :: "int \<Rightarrow> int" where
  "toUint32 x = x mod 4294967296"

subsection \<open>The client registry's sweep\<close>

text \<open>\<open>xs[i]\<close> for a number \<open>i\<close>: \<open>undefined\<close> outside the array.\<close>

definition arrayGet :: "'a list \<Rightarrow> int \<Rightarrow> 'a option" where
  "arrayGet xs i = (if 0 \<le> i \<and> i < int (length xs) then Some (xs ! nat i) else None)"

text \<open>
  The two inner loops of \<open>getClientsForReport\<close>: is there a time within the limit? (They
  stop at the first one.)
\<close>

fun someTimeOk :: "env \<Rightarrow> int \<Rightarrow> int list \<Rightarrow> bool" where
  "someTimeOk env currentTime [] = False"
| "someTimeOk env currentTime (time # rest) =
     (if currentTime - time < ClientTimeoutLimit env then True
      else someTimeOk env currentTime rest)"

fun someMacTimeOk :: "env \<Rightarrow> int \<Rightarrow> (string \<times> int) list \<Rightarrow> bool" where
  "someMacTimeOk env currentTime [] = False"
| "someMacTimeOk env currentTime ((mac, time) # rest) =
     (if currentTime - time < ClientTimeoutLimit env then True
      else someMacTimeOk env currentTime rest)"

text \<open>
  The first loop of \<open>getClientsForReport\<close> over the entries of \<open>this.clients\<close>: the pair of
  the local lists \<open>clients\<close> (here \<open>clientsOut\<close>) and \<open>clientsToDelete\<close>. A comparison with \<open>undefined\<close> (a pad id outside the
  array) is false.
\<close>

fun sweep :: "env \<Rightarrow> int \<Rightarrow> DualshockMeta \<Rightarrow> client_map \<Rightarrow> AddressInfo list \<times> AddressInfo list" where
  "sweep env currentTime m [] = ([], [])"
| "sweep env currentTime m ((info, tms) # rest) =
     (let (clientsOut, clientsToDelete) = sweep env currentTime m rest in
      if currentTime - timeForAllPads tms < ClientTimeoutLimit env then
        (info # clientsOut, clientsToDelete)
      else if padId m < int (length (timeForPadById tms)) \<and>
              (case arrayGet (timeForPadById tms) (padId m) of
                 None \<Rightarrow> False
               | Some time \<Rightarrow> currentTime - time < ClientTimeoutLimit env) then
        (info # clientsOut, clientsToDelete)
      else if (case macAddress m of
                 None \<Rightarrow> False
               | Some mac \<Rightarrow>
                   (case map_of (timeForPadByMac tms) mac of
                      None \<Rightarrow> False
                    | Some time \<Rightarrow> currentTime - time < ClientTimeoutLimit env)) then
        (info # clientsOut, clientsToDelete)
      else
        (let isClientOk = someTimeOk env currentTime (timeForPadById tms) in
         if \<not> isClientOk then
           (let isClientOk = someMacTimeOk env currentTime (timeForPadByMac tms) in
            if \<not> isClientOk then (clientsOut, info # clientsToDelete)
            else (clientsOut, clientsToDelete))
         else (clientsOut, clientsToDelete)))"

text \<open>
  \<open>getClientsForReport(meta)\<close> at the time \<open>currentTime\<close>: the clients to send to, and
  \<open>this.clients\<close> afterwards.
\<close>

definition getClientsForReport :: "env \<Rightarrow> int \<Rightarrow> client_map \<Rightarrow> DualshockMeta \<Rightarrow> AddressInfo list \<times> client_map" where
  "getClientsForReport env currentTime registry m =
     (let (clientsOut, clientsToDelete) = sweep env currentTime m registry
      in (clientsOut, fold (\<lambda>client reg. mapDelete reg client) clientsToDelete registry))"

subsection \<open>Requests: \<open>onMessage\<close>\<close>

text \<open>
  The header of a request, after the magic: version, size, CRC (bytes 8 to 11 are zeroed
  in place before the CRC is computed), client id and message type. The result is the
  buffer, as changed, and the message type.
\<close>

definition readHeader :: "env \<Rightarrow> buffer \<Rightarrow> error + (buffer \<times> int)" where
  "readHeader env data =
     bindE (readUInt16LE data 4) (\<lambda>protocolVer.
     if protocolVer > MaxProtocolVer env then Inl (OutdatedProtocol protocolVer)
     else
     bindE (readUInt16LE data 6) (\<lambda>packetSize.
     if packetSize < 0 then Inl (NegativePacketSize packetSize)
     else
     bindE (readUInt32LE data 8) (\<lambda>receivedCrc.
     let data = setByte data 8 0;
         data = setByte data 9 0;
         data = setByte data 10 0;
         data = setByte data 11 0;
         computedCrc = crc32 data
     in if receivedCrc \<noteq> computedCrc then Inl (CrcMismatch receivedCrc computedCrc)
        else
        bindE (readUInt32LE data 12) (\<lambda>clientId.
        bindE (readUInt32LE data 16) (\<lambda>msgType.
        Inr (data, msgType))))))"

text \<open>The reply to \<open>DSUC_VersionReq\<close>.\<close>

definition versionRsp :: "env \<Rightarrow> UdpServer \<Rightarrow> AddressInfo \<Rightarrow> error + datagram" where
  "versionRsp env s clientEndpoint =
     bindE (writeUInt32LE (alloc 8) (DSUS_VersionRsp env) 0) (\<lambda>outBuffer.
     bindE (writeUInt32LE outBuffer (MaxProtocolVer env) 4) (\<lambda>outBuffer.
     sendPacket s clientEndpoint outBuffer 1001))"

text \<open>
  \<open>DSUC_ListPorts\<close>, first loop: every requested index is at most 3. (\<open>undefined > 3\<close> is
  false.)
\<close>

fun checkPadRequests :: "buffer \<Rightarrow> nat \<Rightarrow> nat list \<Rightarrow> error + unit" where
  "checkPadRequests data index [] = Inr ()"
| "checkPadRequests data index (i # rest) =
     (case getByte data (index + i) of
        None \<Rightarrow> checkPadRequests data index rest
      | Some b \<Rightarrow> if b > 3 then Inl (PadIndexOutOfRange i b)
                  else checkPadRequests data index rest)"

text \<open>The body of a port-info reply, written over \<open>outBuffer\<close>.\<close>

definition portInfo :: "env \<Rightarrow> buffer \<Rightarrow> DualshockMeta \<Rightarrow> error + buffer" where
  "portInfo env outBuffer m =
     bindE (writeUInt32LE outBuffer (DSUS_PortInfo env) 0) (\<lambda>outBuffer.
     let st = (outBuffer, 4);
         st = put st (padId m);
         st = put st (state m);
         st = put st (model m);
         st = put st (connectionType m);
         st = (case macAddress m of
                 None \<Rightarrow> fold (\<lambda>j st. put st 0) [0 ..< 6] st
               | Some a \<Rightarrow>
                   if length a = 17 then putMac (map parseInt16 (split CHR '':'' a)) st
                   else fold (\<lambda>j st. put st 0) [0 ..< 6] st);
         st = put st (batteryStatus m);
         st = put st 0
     in Inr (fst st))"

text \<open>
  \<open>DSUC_ListPorts\<close>, second loop: one reply per requested slot that holds a controller
  with a meta. \<open>outBuffer\<close> is allocated once, before the loop. The result is the
  datagrams sent and, if the loop was left by an exception, the error.
\<close>

fun listPorts :: "env \<Rightarrow> UdpServer \<Rightarrow> AddressInfo \<Rightarrow> buffer \<Rightarrow> nat \<Rightarrow> buffer \<Rightarrow> nat list \<Rightarrow> datagram list \<times> error option" where
  "listPorts env s clientEndpoint data index outBuffer [] = ([], None)"
| "listPorts env s clientEndpoint data index outBuffer (i # rest) =
     (let requestIndex = getByte data (index + i);
          controller = (case requestIndex of
                          None \<Rightarrow> None
                        | Some r \<Rightarrow> (case arrayGet (controllers s) r of None \<Rightarrow> None | Some c \<Rightarrow> c));
          m = (case controller of None \<Rightarrow> None | Some c \<Rightarrow> dualShockMeta (device c))
      in case m of
           None \<Rightarrow> listPorts env s clientEndpoint data index outBuffer rest
         | Some m \<Rightarrow>
             (case portInfo env outBuffer m of
                Inl e \<Rightarrow> ([], Some e)
              | Inr outBuffer \<Rightarrow>
                  (case sendPacket s clientEndpoint outBuffer 1001 of
                     Inl e \<Rightarrow> ([], Some e)
                   | Inr dg \<Rightarrow>
                       (let (sent, err) = listPorts env s clientEndpoint data index outBuffer rest
                        in (dg # sent, err)))))"

text \<open>
  \<open>DSUC_PadDataReq\<close>: one part of the MAC string from one byte of the request. (Reading
  \<open>toString\<close> of \<open>undefined\<close> is a type error.)
\<close>

definition formatMacPart :: "int option \<Rightarrow> error + string" where
  "formatMacPart b =
     (case b of
        None \<Rightarrow> Inl TypeError
      | Some v \<Rightarrow> Inr ((if v < 15 then ''0'' else []) @ toString16 (nat v)))"

fun macParts :: "buffer \<Rightarrow> nat list \<Rightarrow> error + string list" where
  "macParts data [] = Inr []"
| "macParts data (index # rest) =
     bindE (formatMacPart (getByte data index)) (\<lambda>p.
     bindE (macParts data rest) (\<lambda>ps. Inr (p # ps)))"

definition padDataReq :: "env \<Rightarrow> int \<Rightarrow> UdpServer \<Rightarrow> buffer \<Rightarrow> AddressInfo \<Rightarrow> error + UdpServer" where
  "padDataReq env now s data clientEndpoint =
     (let index = 20;
          registrationFlags = getByte data index;
          idToRRegister = getByte data (index + 1);
          index = index + 2
      in bindE (macParts data [index ..< index + 6]) (\<lambda>parts.
         let macToRegister = join '':'' parts;
             reg = (if \<not> mapHas (clients s) clientEndpoint
                    then mapSet (clients s) clientEndpoint (newClientRequestTimes env)
                    else clients s)
         in bindE (mapUpdate reg clientEndpoint
                     (registerPadRequest env registrationFlags idToRRegister macToRegister now))
              (\<lambda>reg. Inr (s\<lparr>clients := reg\<rparr>))))"

text \<open>
  \<open>onMessage(data, clientEndpoint)\<close> at the time \<open>now\<close>: the server afterwards, the
  datagrams sent, and the errors put on \<open>errorSubject\<close> (the \<open>catch\<close> around the body).
\<close>

definition onMessage :: "env \<Rightarrow> int \<Rightarrow> UdpServer \<Rightarrow> buffer \<Rightarrow> AddressInfo \<Rightarrow> UdpServer \<times> datagram list \<times> error list" where
  "onMessage env now s data clientEndpoint =
     (if getByte data 0 = Some (charCode CHR ''D'') \<and>
         getByte data 1 = Some (charCode CHR ''S'') \<and>
         getByte data 2 = Some (charCode CHR ''U'') \<and>
         getByte data 3 = Some (charCode CHR ''C'')
      then
        (case readHeader env data of
           Inl e \<Rightarrow> (s, [], [e])
         | Inr (data, msgType) \<Rightarrow>
             if msgType = DSUC_VersionReq env then
               (case versionRsp env s clientEndpoint of
                  Inl e \<Rightarrow> (s, [], [e])
                | Inr dg \<Rightarrow> (s, [dg], []))
             else if msgType = DSUC_ListPorts env then
               (case readInt32LE data 20 of
                  Inl e \<Rightarrow> (s, [], [e])
                | Inr numOfPadRequests \<Rightarrow>
                    if numOfPadRequests < 0 \<or> numOfPadRequests > 4 then
                      (s, [], [PadRequestsOutOfRange numOfPadRequests])
                    else
                      (case checkPadRequests data 24 [0 ..< nat numOfPadRequests] of
                         Inl e \<Rightarrow> (s, [], [e])
                       | Inr u \<Rightarrow>
                           (case listPorts env s clientEndpoint data 24 (alloc 16)
                                   [0 ..< nat numOfPadRequests] of
                              (sent, None) \<Rightarrow> (s, sent, [])
                            | (sent, Some e) \<Rightarrow> (s, sent, [e]))))
             else if msgType = DSUC_PadDataReq env then
               (case padDataReq env now s data clientEndpoint of
                  Inl e \<Rightarrow> (s, [], [e])
                | Inr s' \<Rightarrow> (s', [], []))
             else (s, [], []))
      else (s, [], []))"

subsection \<open>Reports: \<open>handleReport\<close>\<close>

text \<open>
  The pad-data datagram is filled in three runs of statements. First the header, the
  message type, the meta and the packet counter. (\<open>split\<close> on a \<open>null\<close> MAC address is a
  type error.)
\<close>

definition padDataMeta :: "env \<Rightarrow> int \<Rightarrow> DualshockMeta \<Rightarrow> DualshockReport \<Rightarrow> error + cursor" where
  "padDataMeta env sid m r =
     bindE (beginPacket sid (alloc 100) 1001) (\<lambda>st.
     bindE (put32 st (DSUS_PadDataRsp env)) (\<lambda>st.
     let st = put st (padId m);
         st = put st (state m);
         st = put st (model m);
         st = put st (connectionType m)
     in case macAddress m of
          None \<Rightarrow> Inl TypeError
        | Some a \<Rightarrow>
            (let mac = map parseInt16 (split CHR '':'' a);
                 st = putMac mac st;
                 st = put st (batteryStatus m);
                 st = put st (if isActive m then 1 else 0)
             in put32 st (packetCounter r))))"

text \<open>
  Then the buttons, the sticks and the triggers: from \<open>outBuffer[outIndex] = 0\<close> to
  \<open>outBuffer[++outIndex] = report.trigger.L2\<close>. Here \<open>outIndex\<close> ends on the byte written
  last.
\<close>

definition padDataButtons :: "DualshockReport \<Rightarrow> cursor \<Rightarrow> cursor" where
  "padDataButtons r st =
     (let st = putHere st 0;
          st = orIf (button_dPad_LEFT r) st 0x80;
          st = orIf (button_dPad_DOWN r) st 0x40;
          st = orIf (button_dPad_RIGHT r) st 0x20;
          st = orIf (button_dPad_UP r) st 0x10;
          st = orIf (button_options r) st 0x08;
          st = orIf (button_R3 r) st 0x04;
          st = orIf (button_L3 r) st 0x02;
          st = orIf (button_share r) st 0x01;
          st = putNext st 0;
          st = orIf (button_SQUARE r) st 0x80;
          st = orIf (button_CROSS r) st 0x40;
          st = orIf (button_CIRCLE r) st 0x20;
          st = orIf (button_TRIANGLE r) st 0x10;
          st = orIf (button_R1 r) st 0x08;
          st = orIf (button_L1 r) st 0x04;
          st = orIf (button_R2 r) st 0x02;
          st = orIf (button_L2 r) st 0x01;
          st = putNext st (if button_PS r then 0x01 else 0x00);
          st = putNext st (if button_touch r then 0x01 else 0x00);
          st = putNext st (position_left_x r);
          st = putNext st (position_left_y r);
          st = putNext st (position_right_x r);
          st = putNext st (position_right_y r);
          st = putNext st (if button_dPad_LEFT r then 0xFF else 0x00);
          st = putNext st (if button_dPad_DOWN r then 0xFF else 0x00);
          st = putNext st (if button_dPad_RIGHT r then 0xFF else 0x00);
          st = putNext st (if button_dPad_UP r then 0xFF else 0x00);
          st = putNext st (if button_SQUARE r then 0xFF else 0x00);
          st = putNext st (if button_CROSS r then 0xFF else 0x00);
          st = putNext st (if button_CIRCLE r then 0xFF else 0x00);
          st = putNext st (if button_TRIANGLE r then 0xFF else 0x00);
          st = putNext st (if button_R1 r then 0xFF else 0x00);
          st = putNext st (if button_L1 r then 0xFF else 0x00);
          st = putNext st (trigger_R2 r);
          st = putNext st (trigger_L2 r)
      in st)"

text \<open>
  Then \<open>outIndex++\<close>, the two touches, the motion timestamp and the six floats.
\<close>

definition padDataMotion :: "DualshockReport \<Rightarrow> cursor \<Rightarrow> error + cursor" where
  "padDataMotion r st =
     (let st = skip st;
          st = put st (if trackPad_first_isActive r then 0x01 else 0x00);
          st = put st (trackPad_first_id r)
      in bindE (put16 st (trackPad_first_x r)) (\<lambda>st.
         bindE (put16 st (trackPad_first_y r)) (\<lambda>st.
         let st = put st (if trackPad_second_isActive r then 0x01 else 0x00);
             st = put st (trackPad_second_id r)
         in bindE (put16 st (trackPad_second_x r)) (\<lambda>st.
            bindE (put16 st (trackPad_second_y r)) (\<lambda>st.
            bindE (put32 st (toUint32 (motionTimestamp_low r))) (\<lambda>st.
            bindE (put32 st (toUint32 (motionTimestamp_high r))) (\<lambda>st.
            bindE (putFloat st (accelerometer_x r)) (\<lambda>st.
            bindE (putFloat st (accelerometer_y r)) (\<lambda>st.
            bindE (putFloat st (accelerometer_z r)) (\<lambda>st.
            bindE (putFloat st (gyro_x r)) (\<lambda>st.
            bindE (putFloat st (gyro_y r)) (\<lambda>st.
            putFloat st (gyro_z r)))))))))))))"

text \<open>The whole datagram: the three runs, then \<open>finishPacket\<close>.\<close>

definition padDataRsp :: "env \<Rightarrow> int \<Rightarrow> DualshockMeta \<Rightarrow> DualshockReport \<Rightarrow> error + buffer" where
  "padDataRsp env sid m r =
     bindE (padDataMeta env sid m r) (\<lambda>st.
     bindE (padDataMotion r (padDataButtons r st)) (\<lambda>st.
     finishPacket (fst st)))"

text \<open>
  \<open>handleReport(data)\<close> at the time \<open>now\<close>: the server afterwards, the datagrams sent (one
  per client, all with the same buffer) and the errors put on \<open>errorSubject\<close>.
\<close>

definition handleReport :: "env \<Rightarrow> int \<Rightarrow> UdpServer \<Rightarrow> DualshockData \<Rightarrow> UdpServer \<times> datagram list \<times> error list" where
  "handleReport env now s d =
     (case socket s of
        None \<Rightarrow> (s, [], [])
      | Some sock \<Rightarrow>
          (let m = meta d;
               (clientsOut, reg) = getClientsForReport env now (clients s) m;
               s = s\<lparr>clients := reg\<rparr>
           in if length clientsOut > 0 then
                (case padDataRsp env (serverId s) m (report d) of
                   Inl e \<Rightarrow> (s, [], [e])
                 | Inr outBuffer \<Rightarrow>
                     (s, map (\<lambda>client. \<lparr>dest_port = port client, dest_address = address client,
                                         payload = outBuffer\<rparr>) clientsOut, []))
              else (s, [], [])))"

subsection \<open>The two inputs of the server\<close>

text \<open>
  \<open>start\<close> binds \<open>onMessage\<close> to the socket's messages and \<open>addController\<close> binds
  \<open>handleReport\<close> to a controller's reports: these two are all that makes the server
  send.
\<close>

datatype event = Message buffer AddressInfo | Report DualshockData

definition serverEvent :: "env \<Rightarrow> int \<Rightarrow> UdpServer \<Rightarrow> event \<Rightarrow> UdpServer \<times> datagram list \<times> error list" where
  "serverEvent env now s ev =
     (case ev of
        Message data clientEndpoint \<Rightarrow> onMessage env now s data clientEndpoint
      | Report d \<Rightarrow> handleReport env now s d)"

subsection \<open>A configuration for worked examples\<close>

text \<open>
  Modelled from the spec: \<open>registerPadRequest\<close> of \<open>ClientRequestTimes\<close>, whose declaration
  is not among the sources. The flags 0 stamp the all-pads time; otherwise bit 0 stamps
  the time of the pad id (when the id is one of the four) and bit 1 the time of the MAC.
\<close>

definition spec_registerPadRequest :: "int option \<Rightarrow> int option \<Rightarrow> string \<Rightarrow> int \<Rightarrow> ClientRequestTimes \<Rightarrow> ClientRequestTimes" where
  "spec_registerPadRequest flags ident mac now t =
     (case flags of
        None \<Rightarrow> t
      | Some f \<Rightarrow>
          if f = 0 then t\<lparr>timeForAllPads := now\<rparr>
          else
            (let t = (if odd f then
                        (case ident of
                           None \<Rightarrow> t
                         | Some i \<Rightarrow>
                             if 0 \<le> i \<and> i < int (length (timeForPadById t))
                             then t\<lparr>timeForPadById := (timeForPadById t)[nat i := now]\<rparr>
                             else t)
                      else t)
             in if odd (f div 2)
                then t\<lparr>timeForPadByMac := AList.update mac now (timeForPadByMac t)\<rparr>
                else t))"

text \<open>
  The message codes and the protocol version of the DSU reference, a limit of five
  seconds, and a new \<open>ClientRequestTimes\<close> with every time at 0.
\<close>

definition dsu :: env where
  "dsu = \<lparr>MaxProtocolVer = 1001, ClientTimeoutLimit = 5000,
          DSUC_VersionReq = 0x100000, DSUS_VersionRsp = 0x100000,
          DSUC_ListPorts = 0x100001, DSUS_PortInfo = 0x100001,
          DSUC_PadDataReq = 0x100002, DSUS_PadDataRsp = 0x100002,
          newClientRequestTimes =
            \<lparr>timeForAllPads = 0, timeForPadById = [0, 0, 0, 0], timeForPadByMac = []\<rparr>,
          registerPadRequest = spec_registerPadRequest\<rparr>"

subsection \<open>The checksum invariant, in the spec's words\<close>

text \<open>
  \<open>CRC32(D with bytes[8..12] = 0) == readU32LE(D[8..12])\<close>: the datagram with its CRC
  field zeroed, and the comparison.
\<close>

definition zeroCrc :: "buffer \<Rightarrow> buffer" where
  "zeroCrc d = d[8 := 0, 9 := 0, 10 := 0, 11 := 0]"

definition crcValid :: "buffer \<Rightarrow> bool" where
  "crcValid d = (readUInt32LE d 8 = Inr (crc32 (zeroCrc d)))"

subsection \<open>Malformed requests, in the spec's words\<close>

text \<open>The first four bytes are \<open>DSUC\<close>.\<close>

fun hasMagic :: "buffer \<Rightarrow> bool" where
  "hasMagic (a # b # c # e # rest) = (a = 0x44 \<and> b = 0x53 \<and> c = 0x55 \<and> e = 0x43)"
| "hasMagic short = False"

text \<open>The declared protocol version, the u16 at offset 4, is greater than \<open>MaxProtocolVer\<close>.\<close>

definition versionTooHigh :: "env \<Rightarrow> buffer \<Rightarrow> bool" where
  "versionTooHigh env d =
     (case readUInt16LE d 4 of Inl e \<Rightarrow> False | Inr v \<Rightarrow> MaxProtocolVer env < v)"

text \<open>
  The request is a port list (its message type, the u32 at offset 16, is the one the
  server takes for \<open>DSUC_ListPorts\<close>) and \<open>numOfPadRequests\<close>, the i32 at offset 20, is
  outside 0 to 4; or it is within and one of the requested pad indices, the bytes from
  offset 24, is greater than 3.
\<close>

definition isListPorts :: "env \<Rightarrow> buffer \<Rightarrow> bool" where
  "isListPorts env d =
     (readUInt32LE d 16 = Inr (DSUC_ListPorts env) \<and> DSUC_ListPorts env \<noteq> DSUC_VersionReq env)"

definition padRequestsOutOfRange :: "env \<Rightarrow> buffer \<Rightarrow> bool" where
  "padRequestsOutOfRange env d =
     (isListPorts env d \<and>
      (case readInt32LE d 20 of Inl e \<Rightarrow> False | Inr n \<Rightarrow> n < 0 \<or> 4 < n))"

definition padIndexOutOfRange :: "env \<Rightarrow> buffer \<Rightarrow> bool" where
  "padIndexOutOfRange env d =
     (isListPorts env d \<and>
      (case readInt32LE d 20 of
         Inl e \<Rightarrow> False
       | Inr n \<Rightarrow> 0 \<le> n \<and> n \<le> 4 \<and>
           list_ex (\<lambda>i. case getByte d (24 + i) of None \<Rightarrow> False | Some b \<Rightarrow> 3 < b)
             [0 ..< nat n]))"

subsection \<open>The interest and eviction rules, in the spec's words\<close>

text \<open>A timestamp is fresh at the time \<open>now\<close> when \<open>now - ts < ClientTimeoutLimit\<close>.\<close>

definition fresh :: "env \<Rightarrow> int \<Rightarrow> int \<Rightarrow> bool" where
  "fresh env now ts = (now - ts < ClientTimeoutLimit env)"

text \<open>
  A client is interested in a report with the meta \<open>m\<close> when its all-pads timestamp is
  fresh, or its timestamp for the pad \<open>padId m\<close> is, or its timestamp for the MAC address
  of \<open>m\<close> is.
\<close>

definition interested :: "env \<Rightarrow> int \<Rightarrow> DualshockMeta \<Rightarrow> ClientRequestTimes \<Rightarrow> bool" where
  "interested env now m t =
     (fresh env now (timeForAllPads t) \<or>
      (case arrayGet (timeForPadById t) (padId m) of
         None \<Rightarrow> False
       | Some ts \<Rightarrow> fresh env now ts) \<or>
      (case macAddress m of
         None \<Rightarrow> False
       | Some mac \<Rightarrow>
           (case map_of (timeForPadByMac t) mac of
              None \<Rightarrow> False
            | Some ts \<Rightarrow> fresh env now ts)))"

text \<open>
  A client has a fresh timestamp when one of all its timestamps is fresh: the all-pads
  one, any per-pad one, any per-MAC one.
\<close>

definition hasFresh :: "env \<Rightarrow> int \<Rightarrow> ClientRequestTimes \<Rightarrow> bool" where
  "hasFresh env now t =
     (fresh env now (timeForAllPads t) \<or>
      (\<exists>ts \<in> set (timeForPadById t). fresh env now ts) \<or>
      (\<exists>(mac, ts) \<in> set (timeForPadByMac t). fresh env now ts))"

text \<open>The keys of a \<open>Map\<close> are distinct objects.\<close>

definition distinctKeys :: "client_map \<Rightarrow> bool" where
  "distinctKeys registry = distinct (map (\<lambda>(k, t). ref k) registry)"

subsection \<open>Worked examples: a client, a controller report, a server\<close>

definition example_client :: AddressInfo where
  "example_client = \<lparr>ref = 1, address = ''10.0.0.2'', family = ''IPv4'', port = 5000\<rparr>"

definition example_meta :: DualshockMeta where
  "example_meta =
     \<lparr>padId = 0, state = 2, model = 2, connectionType = 1,
      macAddress = Some ''00:11:22:33:44:55'', batteryStatus = 0, isActive = True\<rparr>"

definition example_report :: DualshockReport where
  "example_report =
     \<lparr>packetCounter = 7,
      button_dPad_UP = False, button_dPad_DOWN = False, button_dPad_LEFT = True,
      button_dPad_RIGHT = False, button_options = False, button_share = False,
      button_R3 = False, button_L3 = False, button_SQUARE = False, button_CROSS = True,
      button_CIRCLE = False, button_TRIANGLE = False, button_R1 = False, button_L1 = False,
      button_R2 = False, button_L2 = False, button_PS = False, button_touch = False,
      position_left_x = 128, position_left_y = 128,
      position_right_x = 128, position_right_y = 128,
      trigger_R2 = 9, trigger_L2 = 10,
      trackPad_first_isActive = True, trackPad_first_id = 3,
      trackPad_first_x = 0x0102, trackPad_first_y = 0x0304,
      trackPad_second_isActive = False, trackPad_second_id = 0,
      trackPad_second_x = 0, trackPad_second_y = 0,
      motionTimestamp_low = 0x0A0B0C0D, motionTimestamp_high = 1,
      accelerometer_x = 0, accelerometer_y = 0, accelerometer_z = 0x3F800000,
      gyro_x = 0, gyro_y = 0, gyro_z = 0\<rparr>"

definition example_data :: DualshockData where
  "example_data = \<lparr>meta = example_meta, report = example_report\<rparr>"

text \<open>
  A started server with the id 5 and one client, which asked for all pads at the time
  1000.
\<close>

definition example_server :: UdpServer where
  "example_server =
     (start 1 (newUdpServer 5))
       \<lparr>clients := [(example_client, (newClientRequestTimes dsu)\<lparr>timeForAllPads := 1000\<rparr>)]\<rparr>"

definition example_slot :: "nat \<Rightarrow> slot" where
  "example_slot n = \<lparr>device = \<lparr>dualShockMeta = None\<rparr>, subscription = n\<rparr>"

text \<open>A server whose four slots are taken.\<close>

definition example_full_server :: UdpServer where
  "example_full_server =
     (newUdpServer 5)\<lparr>controllers :=
        [Some (example_slot 1), Some (example_slot 2), Some (example_slot 3), Some (example_slot 4)]\<rparr>"

text \<open>The datagram the example's client gets for the example's report at the time 2000.\<close>

definition example_datagram :: buffer where
  "example_datagram =
     payload (hd (fst (snd (handleReport dsu 2000 example_server example_data))))"

text \<open>
  Requests of a client with the id \<open>0x12345678\<close>, protocol version 1001, each with the
  CRC-32 of its bytes at offset 8: a version request, a port list for five pads, a port
  list for the pads 0 and 4, and a pad-data request with the MAC bytes
  \<open>0f 0a bc 00 10 ff\<close>.
\<close>

definition example_versionReq :: buffer where
  "example_versionReq =
     [68, 83, 85, 67, 0xE9, 3, 4, 0, 201, 188, 123, 183, 0x78, 0x56, 0x34, 0x12,
      0, 0, 0x10, 0]"

definition example_listPorts_five :: buffer where
  "example_listPorts_five =
     [68, 83, 85, 67, 0xE9, 3, 12, 0, 163, 178, 231, 228, 0x78, 0x56, 0x34, 0x12,
      1, 0, 0x10, 0, 5, 0, 0, 0, 0, 1, 2, 3]"

definition example_listPorts_pad4 :: buffer where
  "example_listPorts_pad4 =
     [68, 83, 85, 67, 0xE9, 3, 12, 0, 105, 74, 214, 67, 0x78, 0x56, 0x34, 0x12,
      1, 0, 0x10, 0, 2, 0, 0, 0, 0, 4, 0, 0]"

definition example_padDataReq :: buffer where
  "example_padDataReq =
     [68, 83, 85, 67, 0xE9, 3, 12, 0, 178, 145, 230, 250, 0x78, 0x56, 0x34, 0x12,
      2, 0, 0x10, 0, 0, 0, 0x0f, 0x0a, 0xbc, 0, 0x10, 0xff]"

text \<open>
  The version request with the version 1002 (and the CRC of that), with a wrong CRC, and
  with the server's magic \<open>DSUS\<close> in place of \<open>DSUC\<close>.
\<close>

definition example_version_1002 :: buffer where
  "example_version_1002 =
     [68, 83, 85, 67, 0xEA, 3, 4, 0, 59, 8, 179, 158, 0x78, 0x56, 0x34, 0x12,
      0, 0, 0x10, 0]"

definition example_bad_crc :: buffer where
  "example_bad_crc =
     [68, 83, 85, 67, 0xE9, 3, 4, 0, 200, 188, 123, 183, 0x78, 0x56, 0x34, 0x12,
      0, 0, 0x10, 0]"

definition example_bad_magic :: buffer where
  "example_bad_magic =
     [68, 83, 85, 83, 0xE9, 3, 4, 0, 201, 188, 123, 183, 0x78, 0x56, 0x34, 0x12,
      0, 0, 0x10, 0]"

text \<open>
  A registry of three clients at the time 7000, with a limit of 5000: the first asked
  for all pads at 6000, the second for pad 1 at 6500, the third asked for pad 0 at 1000
  and for a MAC at 1500 and is stale.
\<close>

definition example_registry :: client_map where
  "example_registry =
     [(\<lparr>ref = 1, address = ''10.0.0.2'', family = ''IPv4'', port = 5000\<rparr>,
       \<lparr>timeForAllPads = 6000, timeForPadById = [0, 0, 0, 0], timeForPadByMac = []\<rparr>),
      (\<lparr>ref = 2, address = ''10.0.0.3'', family = ''IPv4'', port = 5001\<rparr>,
       \<lparr>timeForAllPads = 0, timeForPadById = [0, 6500, 0, 0], timeForPadByMac = []\<rparr>),
      (\<lparr>ref = 3, address = ''10.0.0.4'', family = ''IPv4'', port = 5002\<rparr>,
       \<lparr>timeForAllPads = 0, timeForPadById = [1000, 0, 0, 0],
        timeForPadByMac = [(''00:11:22:33:44:55'', 1500)]\<rparr>)]"

text \<open>
  A started server with no client yet, and a second \<open>AddressInfo\<close> object for the peer of
  \<open>example_client\<close>: the same address, family and port, another object.
\<close>

definition example_empty_server :: UdpServer where
  "example_empty_server = start 1 (newUdpServer 5)"

definition example_client_again :: AddressInfo where
  "example_client_again = example_client\<lparr>ref := 2\<rparr>"

section \<open>Lemmas on buffers\<close>

lemma div_mod_256:
  fixes v :: int
  obtains q r where "v div 256 = q" "v mod 256 = r" "v = 256 * q + r" "0 \<le> r" "r < 256"
proof
  show "v div 256 = v div 256" "v mod 256 = v mod 256" by (rule refl)+
  show "v = 256 * (v div 256) + v mod 256" by (rule mult_div_mod_eq [symmetric])
  show "0 \<le> v mod 256" by (rule pos_mod_sign) simp
  show "v mod 256 < 256" by (rule pos_mod_bound) simp
qed

lemma uint16_bytes:
  fixes v :: int
  assumes "0 \<le> v" "v \<le> 65535"
  shows "v mod 256 + 256 * (v div 256 mod 256) = v"
proof -
  obtain q r where qr: "v div 256 = q" "v mod 256 = r" "v = 256 * q + r" "0 \<le> r" "r < 256"
    by (rule div_mod_256)
  from assms qr(3-5) have "0 \<le> q" "q < 256" by linarith+
  then have qq: "q mod 256 = q" by (rule mod_pos_pos_trivial)
  show ?thesis unfolding qr(1) qr(2) qq using qr(3) by linarith
qed


lemma uint32_bytes:
  fixes v :: int
  assumes "0 \<le> v" "v \<le> 4294967295"
  shows "v mod 256 + 256 * (v div 256 mod 256) + 65536 * (v div 65536 mod 256)
     + 16777216 * (v div 16777216 mod 256) = v"
proof -
  obtain q1 r1 where a: "v div 256 = q1" "v mod 256 = r1" "v = 256 * q1 + r1" "0 \<le> r1" "r1 < 256"
    by (rule div_mod_256)
  obtain q2 r2 where b: "q1 div 256 = q2" "q1 mod 256 = r2" "q1 = 256 * q2 + r2" "0 \<le> r2" "r2 < 256"
    by (rule div_mod_256)
  obtain q3 r3 where c: "q2 div 256 = q3" "q2 mod 256 = r3" "q2 = 256 * q3 + r3" "0 \<le> r3" "r3 < 256"
    by (rule div_mod_256)
  have "v div 65536 = v div (256 * 256)" by simp
  also have "\<dots> = v div 256 div 256" by (rule zdiv_zmult2_eq) simp
  finally have d2: "v div 65536 = q2" unfolding a(1) b(1) .
  have "v div 16777216 = v div (65536 * 256)" by simp
  also have "\<dots> = v div 65536 div 256" by (rule zdiv_zmult2_eq) simp
  finally have d3: "v div 16777216 = q3" unfolding d2 c(1) .
  from assms a(3-5) b(3-5) c(3-5) have "0 \<le> q3" "q3 < 256" by linarith+
  then have qq: "q3 mod 256 = q3" by (rule mod_pos_pos_trivial)
  show ?thesis unfolding d2 d3 a(1) a(2) b(2) c(2) qq using a(3) b(3) c(3) by linarith
qed

lemma uint_byte: "uint (word_of_int v :: byte) = v mod 256"
  by (simp add: uint_word_of_int)


lemma bindE_Inr: "bindE m f = Inr y \<Longrightarrow> \<exists>x. m = Inr x \<and> f x = Inr y"
  by (cases m) (simp_all add: bindE_def)

lemma length_setByte [simp]: "length (setByte b i v) = length b"
  by (simp add: setByte_def)

lemma length_orByte [simp]: "length (orByte b i m) = length b"
  by (simp add: orByte_def)

lemma take_setByte [simp]: "n \<le> i \<Longrightarrow> take n (setByte b i v) = take n b"
  by (simp add: setByte_def)

lemma take_orByte [simp]: "n \<le> i \<Longrightarrow> take n (orByte b i m) = take n b"
  by (simp add: orByte_def)

lemma update4_nth:
  "i + 4 \<le> length b \<Longrightarrow>
   b[i := w0, i + 1 := w1, i + 2 := w2, i + 3 := w3] ! i = w0 \<and>
   b[i := w0, i + 1 := w1, i + 2 := w2, i + 3 := w3] ! (i + 1) = w1 \<and>
   b[i := w0, i + 1 := w1, i + 2 := w2, i + 3 := w3] ! (i + 2) = w2 \<and>
   b[i := w0, i + 1 := w1, i + 2 := w2, i + 3 := w3] ! (i + 3) = w3"
  by simp

lemma update2_nth:
  "i + 2 \<le> length b \<Longrightarrow>
   b[i := w0, i + 1 := w1] ! i = w0 \<and> b[i := w0, i + 1 := w1] ! (i + 1) = w1"
  by simp

lemma writeUInt32LE_Inr:
  assumes "writeUInt32LE b v i = Inr b'"
  shows "0 \<le> v" "v \<le> 4294967295" "i + 4 \<le> length b"
    "b' = b[i := word_of_int v, i + 1 := word_of_int (v div 256),
            i + 2 := word_of_int (v div 65536), i + 3 := word_of_int (v div 16777216)]"
  using assms unfolding writeUInt32LE_def by (simp_all only: split: if_splits, simp_all)

lemma writeUInt16LE_Inr:
  assumes "writeUInt16LE b v i = Inr b'"
  shows "0 \<le> v" "v \<le> 65535" "i + 2 \<le> length b"
    "b' = b[i := word_of_int v, i + 1 := word_of_int (v div 256)]"
  using assms unfolding writeUInt16LE_def by (simp_all only: split: if_splits, simp_all)

lemma writeFloatLE_Inr:
  assumes "writeFloatLE b v i = Inr b'"
  shows "i + 4 \<le> length b"
    "b' = b[i := ucast v, i + 1 := ucast (drop_bit 8 v),
            i + 2 := ucast (drop_bit 16 v), i + 3 := ucast (drop_bit 24 v)]"
  using assms unfolding writeFloatLE_def by (simp_all only: split: if_splits, simp_all)

lemma writeUInt32LE_frame:
  assumes "writeUInt32LE b v i = Inr b'"
  shows "length b' = length b" "n \<le> i \<Longrightarrow> take n b' = take n b"
  unfolding writeUInt32LE_Inr(4) [OF assms] by simp_all

lemma writeUInt16LE_frame:
  assumes "writeUInt16LE b v i = Inr b'"
  shows "length b' = length b" "n \<le> i \<Longrightarrow> take n b' = take n b"
  unfolding writeUInt16LE_Inr(4) [OF assms] by simp_all

lemma writeFloatLE_frame:
  assumes "writeFloatLE b v i = Inr b'"
  shows "length b' = length b" "n \<le> i \<Longrightarrow> take n b' = take n b"
  unfolding writeFloatLE_Inr(2) [OF assms] by simp_all

lemma read_write32:
  assumes "writeUInt32LE b v i = Inr b'"
  shows "readUInt32LE b' i = Inr v"
proof -
  note w = writeUInt32LE_Inr [OF assms]
  have len: "\<not> length b' < i + 4" using w(3) writeUInt32LE_frame(1) [OF assms] by simp
  have n: "b' ! i = word_of_int v" "b' ! (i + 1) = word_of_int (v div 256)"
    "b' ! (i + 2) = word_of_int (v div 65536)" "b' ! (i + 3) = word_of_int (v div 16777216)"
    unfolding w(4) using update4_nth [OF w(3)] by blast+
  show ?thesis
    unfolding readUInt32LE_def if_not_P [OF len] n uint_byte uint32_bytes [OF w(1) w(2)]
    by (rule refl)
qed

lemma read_write16:
  assumes "writeUInt16LE b v i = Inr b'"
  shows "readUInt16LE b' i = Inr v"
proof -
  note w = writeUInt16LE_Inr [OF assms]
  have len: "\<not> length b' < i + 2" using w(3) writeUInt16LE_frame(1) [OF assms] by simp
  have n: "b' ! i = word_of_int v" "b' ! (i + 1) = word_of_int (v div 256)"
    unfolding w(4) using update2_nth [OF w(3)] by blast+
  show ?thesis
    unfolding readUInt16LE_def if_not_P [OF len] n uint_byte uint16_bytes [OF w(1) w(2)]
    by (rule refl)
qed

lemma nth_of_take: "take n b = take n b' \<Longrightarrow> k < n \<Longrightarrow> b ! k = b' ! k"
  by (metis nth_take)

lemma readUInt16LE_take:
  assumes "take n b = take n b'" "length b = length b'" "i + 2 \<le> n"
  shows "readUInt16LE b i = readUInt16LE b' i"
proof -
  have "b ! i = b' ! i" "b ! (i + 1) = b' ! (i + 1)"
    using assms(1,3) by (auto intro: nth_of_take)
  then show ?thesis by (simp add: readUInt16LE_def assms(2))
qed

lemma readUInt32LE_take:
  assumes "take n b = take n b'" "length b = length b'" "i + 4 \<le> n"
  shows "readUInt32LE b i = readUInt32LE b' i"
proof -
  have "b ! i = b' ! i" "b ! (i + 1) = b' ! (i + 1)" "b ! (i + 2) = b' ! (i + 2)"
    "b ! (i + 3) = b' ! (i + 3)"
    using assms(1,3) by (auto intro: nth_of_take)
  then show ?thesis by (simp add: readUInt32LE_def assms(2))
qed

text \<open>What \<open>beginPacket\<close> leaves in the header.\<close>

lemma beginPacket_Inr:
  assumes "beginPacket sid data ver = Inr (b, idx)"
  shows "idx = 16" "length b = length data" "16 \<le> length data"
    "readUInt16LE b 4 = Inr ver"
    "readUInt16LE b 6 = Inr (int (length data) - 16)"
    "b ! 8 = 0" "b ! 9 = 0" "b ! 10 = 0" "b ! 11 = 0"
    "readUInt32LE b 12 = Inr sid"
proof -
  from assms have len: "16 \<le> length data"
    by (simp add: beginPacket_def split: if_splits)
  define d0 where "d0 = setByte (setByte (setByte (setByte data 0 (charCode CHR ''D'')) 1
      (charCode CHR ''S'')) 2 (charCode CHR ''U'')) 3 (charCode CHR ''S'')"
  from assms len have "bindE (writeUInt16LE d0 ver 4) (\<lambda>data.
           bindE (writeUInt16LE data (int (length data) - 16) 6) (\<lambda>data.
           bindE (writeUInt32LE data 0 8) (\<lambda>data.
           bindE (writeUInt32LE data sid 12) (\<lambda>data.
           Inr (data, 16))))) = Inr (b, idx)"
    by (simp add: beginPacket_def d0_def Let_def)
  then obtain d1 d2 d3 d4 where
    w1: "writeUInt16LE d0 ver 4 = Inr d1" and
    w2: "writeUInt16LE d1 (int (length d1) - 16) 6 = Inr d2" and
    w3: "writeUInt32LE d2 0 8 = Inr d3" and
    w4: "writeUInt32LE d3 sid 12 = Inr d4" and
    res: "(d4, 16) = (b, idx)"
    by (auto dest!: bindE_Inr)
  from res have b: "b = d4" and i: "idx = 16" by simp_all
  note f1 = writeUInt16LE_frame [OF w1] and f2 = writeUInt16LE_frame [OF w2]
    and f3 = writeUInt32LE_frame [OF w3] and f4 = writeUInt32LE_frame [OF w4]
  have l0: "length d0 = length data" by (simp add: d0_def)
  show "idx = 16" by (rule i)
  show lb: "length b = length data" by (simp add: b f4(1) f3(1) f2(1) f1(1) l0)
  show "16 \<le> length data" by (rule len)
  have "readUInt16LE b 4 = readUInt16LE d1 4"
    by (rule readUInt16LE_take [where n = 6])
      (simp_all add: b f4 f3 f2 f1)
  then show "readUInt16LE b 4 = Inr ver" by (simp add: read_write16 [OF w1])
  have "readUInt16LE b 6 = readUInt16LE d2 6"
    by (rule readUInt16LE_take [where n = 8])
      (simp_all add: b f4 f3 f2 f1)
  then show "readUInt16LE b 6 = Inr (int (length data) - 16)"
    by (simp add: read_write16 [OF w2] f1(1) l0)
  have d3: "d3 ! 8 = 0" "d3 ! 9 = 0" "d3 ! 10 = 0" "d3 ! 11 = 0"
    using writeUInt32LE_Inr(3) [OF w3] unfolding writeUInt32LE_Inr(4) [OF w3] by simp_all
  have t: "take 12 b = take 12 d3" by (simp add: b f4)
  show "b ! 8 = 0" "b ! 9 = 0" "b ! 10 = 0" "b ! 11 = 0"
    using d3 nth_of_take [OF t] by simp_all
  show "readUInt32LE b 12 = Inr sid" by (simp add: b read_write32 [OF w4])
qed

lemma finishPacket_Inr:
  assumes "finishPacket b = Inr d"
  shows "length d = length b" "take 8 d = take 8 b" "readUInt32LE d 8 = Inr (crc32 b)"
    "\<And>k. 12 \<le> k \<Longrightarrow> d ! k = b ! k"
    "b ! 8 = 0 \<Longrightarrow> b ! 9 = 0 \<Longrightarrow> b ! 10 = 0 \<Longrightarrow> b ! 11 = 0 \<Longrightarrow> zeroCrc d = b"
proof -
  from assms have w: "writeUInt32LE b (crc32 b) 8 = Inr d" by (simp add: finishPacket_def)
  note f = writeUInt32LE_frame [OF w] and e = writeUInt32LE_Inr [OF w]
  show "length d = length b" by (rule f(1))
  show "take 8 d = take 8 b" by (simp add: f(2))
  show "readUInt32LE d 8 = Inr (crc32 b)" by (rule read_write32 [OF w])
  show "d ! k = b ! k" if "12 \<le> k" for k
    unfolding e(4) using that by simp
  show "zeroCrc d = b" if "b ! 8 = 0" "b ! 9 = 0" "b ! 10 = 0" "b ! 11 = 0"
  proof (rule nth_equalityI)
    show "length (zeroCrc d) = length b" by (simp add: zeroCrc_def f(1))
    fix k assume "k < length (zeroCrc d)"
    then have k: "k < length b" by (simp add: zeroCrc_def f(1))
    show "zeroCrc d ! k = b ! k"
      unfolding zeroCrc_def e(4) using that k e(3)
      by (simp add: nth_list_update)
  qed
qed

lemma finishPacket_crcValid:
  assumes "finishPacket b = Inr d" "b ! 8 = 0" "b ! 9 = 0" "b ! 10 = 0" "b ! 11 = 0"
  shows "crcValid d"
  unfolding crcValid_def finishPacket_Inr(5) [OF assms] by (rule finishPacket_Inr(3) [OF assms(1)])


section \<open>Lemmas on cursors\<close>

text \<open>
  Each step keeps the length of the buffer, moves the index forward by a fixed amount
  and leaves the bytes below the index as they are.
\<close>

lemma put_simps [simp]:
  "snd (put st v) = snd st + 1"
  "fst (put st v) = setByte (fst st) (snd st) v"
  by (simp_all add: put_def split: prod.splits)

lemma putNext_simps [simp]:
  "snd (putNext st v) = snd st + 1"
  "fst (putNext st v) = setByte (fst st) (snd st + 1) v"
  by (simp_all add: putNext_def split: prod.splits)

lemma putHere_simps [simp]:
  "snd (putHere st v) = snd st"
  "fst (putHere st v) = setByte (fst st) (snd st) v"
  by (simp_all add: putHere_def split: prod.splits)

lemma skip_simps [simp]:
  "snd (skip st) = snd st + 1"
  "fst (skip st) = fst st"
  by (simp_all add: skip_def split: prod.splits)

lemma orIf_simps [simp]:
  "snd (orIf c st m) = snd st"
  "length (fst (orIf c st m)) = length (fst st)"
  "n \<le> snd st \<Longrightarrow> take n (fst (orIf c st m)) = take n (fst st)"
  by (cases st; simp add: orIf_def)+

lemma put16_Inr:
  assumes "put16 st v = Inr st'"
  shows "snd st' = snd st + 2" "writeUInt16LE (fst st) v (snd st) = Inr (fst st')"
    "length (fst st') = length (fst st)" "n \<le> snd st \<Longrightarrow> take n (fst st') = take n (fst st)"
proof -
  from assms obtain b where w: "writeUInt16LE (fst st) v (snd st) = Inr b"
    and s: "st' = (b, snd st + 2)"
    by (auto simp: put16_def split: prod.splits dest!: bindE_Inr)
  show "snd st' = snd st + 2" by (simp add: s)
  show "writeUInt16LE (fst st) v (snd st) = Inr (fst st')" by (simp add: s w)
  show "length (fst st') = length (fst st)" by (simp add: s writeUInt16LE_frame(1) [OF w])
  show "take n (fst st') = take n (fst st)" if "n \<le> snd st"
    by (simp add: s writeUInt16LE_frame(2) [OF w that])
qed

lemma put32_Inr:
  assumes "put32 st v = Inr st'"
  shows "snd st' = snd st + 4" "writeUInt32LE (fst st) v (snd st) = Inr (fst st')"
    "length (fst st') = length (fst st)" "n \<le> snd st \<Longrightarrow> take n (fst st') = take n (fst st)"
proof -
  from assms obtain b where w: "writeUInt32LE (fst st) v (snd st) = Inr b"
    and s: "st' = (b, snd st + 4)"
    by (auto simp: put32_def split: prod.splits dest!: bindE_Inr)
  show "snd st' = snd st + 4" by (simp add: s)
  show "writeUInt32LE (fst st) v (snd st) = Inr (fst st')" by (simp add: s w)
  show "length (fst st') = length (fst st)" by (simp add: s writeUInt32LE_frame(1) [OF w])
  show "take n (fst st') = take n (fst st)" if "n \<le> snd st"
    by (simp add: s writeUInt32LE_frame(2) [OF w that])
qed

lemma putFloat_Inr:
  assumes "putFloat st v = Inr st'"
  shows "snd st' = snd st + 4" "writeFloatLE (fst st) v (snd st) = Inr (fst st')"
    "length (fst st') = length (fst st)" "n \<le> snd st \<Longrightarrow> take n (fst st') = take n (fst st)"
proof -
  from assms obtain b where w: "writeFloatLE (fst st) v (snd st) = Inr b"
    and s: "st' = (b, snd st + 4)"
    by (auto simp: putFloat_def split: prod.splits dest!: bindE_Inr)
  show "snd st' = snd st + 4" by (simp add: s)
  show "writeFloatLE (fst st) v (snd st) = Inr (fst st')" by (simp add: s w)
  show "length (fst st') = length (fst st)" by (simp add: s writeFloatLE_frame(1) [OF w])
  show "take n (fst st') = take n (fst st)" if "n \<le> snd st"
    by (simp add: s writeFloatLE_frame(2) [OF w that])
qed

lemma putMac_frame:
  "snd (putMac mac st) = snd st + length mac \<and>
   length (fst (putMac mac st)) = length (fst st) \<and>
   (n \<le> snd st \<longrightarrow> take n (fst (putMac mac st)) = take n (fst st))"
  unfolding putMac_def by (induction mac arbitrary: st) simp_all

lemma padDataButtons_frame:
  "snd (padDataButtons r st) = snd st + 19"
  "length (fst (padDataButtons r st)) = length (fst st)"
  "n \<le> snd st \<Longrightarrow> take n (fst (padDataButtons r st)) = take n (fst st)"
  by (simp_all add: padDataButtons_def Let_def)


section \<open>Lemmas on the pad-data datagram\<close>

lemma nth_setByte:
  "setByte b i v ! k = (if k = i \<and> i < length b then word_of_int v else b ! k)"
  by (simp add: setByte_def)

lemma padDataMotion_Inr:
  assumes "padDataMotion r st = Inr st'"
  shows "snd st' = snd st + 45"
    and "length (fst st') = length (fst st)"
    and "snd st + 45 \<le> length (fst st)"
    and "n \<le> snd st + 1 \<Longrightarrow> take n (fst st') = take n (fst st)"
    and "fst st' ! (snd st + 1) = (if trackPad_first_isActive r then 1 else 0)"
    and "fst st' ! (snd st + 2) = word_of_int (trackPad_first_id r)"
    and "readUInt16LE (fst st') (snd st + 3) = Inr (trackPad_first_x r)"
    and "readUInt32LE (fst st') (snd st + 13) = Inr (toUint32 (motionTimestamp_low r))"
proof -
  define s2 where "s2 = put (put (skip st) (if trackPad_first_isActive r then 0x01 else 0x00))
    (trackPad_first_id r)"
  from assms obtain s3 s4 s7 s8 s9 s10 s11 s12 s13 s14 s15 where
    p3: "put16 s2 (trackPad_first_x r) = Inr s3" and
    p4: "put16 s3 (trackPad_first_y r) = Inr s4" and
    p7: "put16 (put (put s4 (if trackPad_second_isActive r then 0x01 else 0x00))
           (trackPad_second_id r)) (trackPad_second_x r) = Inr s7" and
    p8: "put16 s7 (trackPad_second_y r) = Inr s8" and
    p9: "put32 s8 (toUint32 (motionTimestamp_low r)) = Inr s9" and
    p10: "put32 s9 (toUint32 (motionTimestamp_high r)) = Inr s10" and
    p11: "putFloat s10 (accelerometer_x r) = Inr s11" and
    p12: "putFloat s11 (accelerometer_y r) = Inr s12" and
    p13: "putFloat s12 (accelerometer_z r) = Inr s13" and
    p14: "putFloat s13 (gyro_x r) = Inr s14" and
    p15: "putFloat s14 (gyro_y r) = Inr s15" and
    p16: "putFloat s15 (gyro_z r) = Inr st'"
    unfolding padDataMotion_def Let_def s2_def
    by (auto dest!: bindE_Inr)
  note i = put16_Inr(1) [OF p3] put16_Inr(1) [OF p4] put16_Inr(1) [OF p7] put16_Inr(1) [OF p8]
    put32_Inr(1) [OF p9] put32_Inr(1) [OF p10] putFloat_Inr(1) [OF p11] putFloat_Inr(1) [OF p12]
    putFloat_Inr(1) [OF p13] putFloat_Inr(1) [OF p14] putFloat_Inr(1) [OF p15]
    putFloat_Inr(1) [OF p16]
  note l = put16_Inr(3) [OF p3] put16_Inr(3) [OF p4] put16_Inr(3) [OF p7] put16_Inr(3) [OF p8]
    put32_Inr(3) [OF p9] put32_Inr(3) [OF p10] putFloat_Inr(3) [OF p11] putFloat_Inr(3) [OF p12]
    putFloat_Inr(3) [OF p13] putFloat_Inr(3) [OF p14] putFloat_Inr(3) [OF p15]
    putFloat_Inr(3) [OF p16]
  note t = put16_Inr(4) [OF p3] put16_Inr(4) [OF p4] put16_Inr(4) [OF p7] put16_Inr(4) [OF p8]
    put32_Inr(4) [OF p9] put32_Inr(4) [OF p10] putFloat_Inr(4) [OF p11] putFloat_Inr(4) [OF p12]
    putFloat_Inr(4) [OF p13] putFloat_Inr(4) [OF p14] putFloat_Inr(4) [OF p15]
    putFloat_Inr(4) [OF p16]
  have i2: "snd s2 = snd st + 3" and l2: "length (fst s2) = length (fst st)"
    by (simp_all add: s2_def)
  show idx: "snd st' = snd st + 45" by (simp add: i i2)
  show len: "length (fst st') = length (fst st)" by (simp add: l l2)
  have "snd s15 + 4 \<le> length (fst s15)"
    by (rule writeFloatLE_Inr(1) [OF putFloat_Inr(2) [OF p16]])
  then show bound: "snd st + 45 \<le> length (fst st)" by (simp add: i i2 l l2)
  have t3: "take n (fst st') = take n (fst s3)" if "n \<le> snd st + 5" for n
    using that by (simp add: t i i2)
  have t2: "take n (fst st') = take n (fst s2)" if "n \<le> snd st + 3" for n
    using that by (simp add: t i i2)
  show "take n (fst st') = take n (fst st)" if "n \<le> snd st + 1"
    using that by (simp add: t2 s2_def)
  have "fst st' ! (snd st + 1) = fst s2 ! (snd st + 1)"
    by (rule nth_of_take [OF t2 [OF order_refl]]) simp
  then show "fst st' ! (snd st + 1) = (if trackPad_first_isActive r then 1 else 0)"
    using bound by (simp add: s2_def nth_setByte)
  have "fst st' ! (snd st + 2) = fst s2 ! (snd st + 2)"
    by (rule nth_of_take [OF t2 [OF order_refl]]) simp
  then show "fst st' ! (snd st + 2) = word_of_int (trackPad_first_id r)"
    using bound by (simp add: s2_def nth_setByte)
  have "readUInt16LE (fst st') (snd st + 3) = readUInt16LE (fst s3) (snd st + 3)"
    by (rule readUInt16LE_take [OF t3 [OF order_refl]]) (simp_all add: len l l2)
  also have "\<dots> = Inr (trackPad_first_x r)"
    using read_write16 [OF put16_Inr(2) [OF p3]] by (simp add: i2)
  finally show "readUInt16LE (fst st') (snd st + 3) = Inr (trackPad_first_x r)" .
  have t9: "take n (fst st') = take n (fst s9)" if "n \<le> snd st + 17" for n
    using that by (simp add: t i i2)
  have "readUInt32LE (fst st') (snd st + 13) = readUInt32LE (fst s9) (snd st + 13)"
    by (rule readUInt32LE_take [OF t9 [OF order_refl]]) (simp_all add: len l l2)
  also have "\<dots> = Inr (toUint32 (motionTimestamp_low r))"
    using read_write32 [OF put32_Inr(2) [OF p9]] by (simp add: i i2 ac_simps)
  finally show "readUInt32LE (fst st') (snd st + 13) = Inr (toUint32 (motionTimestamp_low r))" .
qed


lemma padDataMeta_Inr:
  assumes "padDataMeta env sid m r = Inr st'"
  obtains h a where "beginPacket sid (alloc 100) 1001 = Inr (h, 16)"
    and "macAddress m = Some a"
    and "snd st' = 30 + length (split CHR '':'' a)"
    and "length (fst st') = 100"
    and "take 16 (fst st') = take 16 h"
proof -
  from assms obtain s0 s1 where
    b: "beginPacket sid (alloc 100) 1001 = Inr s0" and
    p1: "put32 s0 (DSUS_PadDataRsp env) = Inr s1" and
    rest: "(let st = put s1 (padId m); st = put st (state m); st = put st (model m);
                st = put st (connectionType m)
            in case macAddress m of
                 None \<Rightarrow> Inl TypeError
               | Some a \<Rightarrow>
                   (let mac = map parseInt16 (split CHR '':'' a);
                        st = putMac mac st;
                        st = put st (batteryStatus m);
                        st = put st (if isActive m then 1 else 0)
                    in put32 st (packetCounter r))) = Inr st'"
    unfolding padDataMeta_def by (auto dest!: bindE_Inr)
  from rest obtain a where a: "macAddress m = Some a"
    by (cases "macAddress m") (simp_all add: Let_def)
  define s2 where "s2 = put (put (put (put s1 (padId m)) (state m)) (model m)) (connectionType m)"
  define s3 where "s3 = put (put (putMac (map parseInt16 (split CHR '':'' a)) s2)
    (batteryStatus m)) (if isActive m then 1 else 0)"
  from rest a have p4: "put32 s3 (packetCounter r) = Inr st'"
    by (simp add: Let_def s2_def s3_def)
  obtain h i0 where s0: "s0 = (h, i0)" by (cases s0)
  note bp = beginPacket_Inr [OF b [unfolded s0]]
  have i0: "i0 = 16" by (rule bp(1))
  have lh: "length h = 100" using bp(2) by (simp add: alloc_def)
  note mac = putMac_frame [of "map parseInt16 (split CHR '':'' a)" s2]
  have i1: "snd s1 = 20" using put32_Inr(1) [OF p1] by (simp add: s0 i0)
  have l1: "length (fst s1) = 100" using put32_Inr(3) [OF p1] by (simp add: s0 lh)
  have t1: "take 16 (fst s1) = take 16 h" using put32_Inr(4) [OF p1, of 16] by (simp add: s0 i0)
  have i2: "snd s2 = 24" by (simp add: s2_def i1)
  have l2: "length (fst s2) = 100" by (simp add: s2_def l1)
  have t2: "take 16 (fst s2) = take 16 h" by (simp add: s2_def i1 t1)
  have i3: "snd s3 = 26 + length (split CHR '':'' a)" using mac by (simp add: s3_def i2)
  have l3: "length (fst s3) = 100" using mac by (simp add: s3_def l2)
  have t3: "take 16 (fst s3) = take 16 h" using mac [of 16] by (simp add: s3_def i2 t2)
  show ?thesis
  proof (rule that)
    show "beginPacket sid (alloc 100) 1001 = Inr (h, 16)" using b by (simp add: s0 i0)
    show "macAddress m = Some a" by (rule a)
    show "snd st' = 30 + length (split CHR '':'' a)" using put32_Inr(1) [OF p4] by (simp add: i3)
    show "length (fst st') = 100" using put32_Inr(3) [OF p4] by (simp add: l3)
    show "take 16 (fst st') = take 16 h" using put32_Inr(4) [OF p4, of 16] by (simp add: i3 t3)
  qed
qed

lemma crc32_range [simp]: "\<not> crc32 b < 0" "\<not> 4294967295 < crc32 b"
proof -
  show "\<not> crc32 b < 0" by (simp add: crc32_def)
  have "uint (foldl crc32_byte 0xFFFFFFFF b XOR 0xFFFFFFFF) < 2 ^ LENGTH(32)"
    by (rule uint_lt2p)
  then show "\<not> 4294967295 < crc32 b" by (simp add: crc32_def)
qed

lemma readUInt16LE_nth:
  assumes "length b = length b'" "b ! i = b' ! i" "b ! (i + 1) = b' ! (i + 1)"
  shows "readUInt16LE b i = readUInt16LE b' i"
  using assms by (simp add: readUInt16LE_def)

lemma readUInt32LE_nth:
  assumes "length b = length b'" "b ! i = b' ! i" "b ! (i + 1) = b' ! (i + 1)"
    "b ! (i + 2) = b' ! (i + 2)" "b ! (i + 3) = b' ! (i + 3)"
  shows "readUInt32LE b i = readUInt32LE b' i"
  using assms by (simp add: readUInt32LE_def)

lemma padDataButtons_last:
  "snd st + 19 < length (fst st) \<Longrightarrow>
   fst (padDataButtons r st) ! (snd st + 19) = word_of_int (trigger_L2 r)"
  by (simp add: padDataButtons_def Let_def nth_setByte)

text \<open>Every pad-data datagram, whatever the MAC string splits into.\<close>

lemma padDataRsp_Inr:
  assumes "padDataRsp env sid m r = Inr d"
  obtains a where "macAddress m = Some a"
    and "length d = 100"
    and "readUInt16LE d 6 = Inr 84"
    and "crcValid d"
    and "readUInt32LE d 12 = Inr sid"
    and "d ! (49 + length (split CHR '':'' a)) = word_of_int (trigger_L2 r)"
    and "d ! (50 + length (split CHR '':'' a)) = (if trackPad_first_isActive r then 1 else 0)"
    and "d ! (51 + length (split CHR '':'' a)) = word_of_int (trackPad_first_id r)"
    and "readUInt16LE d (52 + length (split CHR '':'' a)) = Inr (trackPad_first_x r)"
    and "readUInt32LE d (62 + length (split CHR '':'' a)) = Inr (toUint32 (motionTimestamp_low r))"
proof -
  from assms obtain st1 st3 where
    m1: "padDataMeta env sid m r = Inr st1" and
    m3: "padDataMotion r (padDataButtons r st1) = Inr st3" and
    fin: "finishPacket (fst st3) = Inr d"
    unfolding padDataRsp_def by (auto dest!: bindE_Inr)
  from m1 obtain h a where
    h: "beginPacket sid (alloc 100) 1001 = Inr (h, 16)" and
    a: "macAddress m = Some a" and
    i1: "snd st1 = 30 + length (split CHR '':'' a)" and
    l1: "length (fst st1) = 100" and
    t1: "take 16 (fst st1) = take 16 h"
    by (rule padDataMeta_Inr)
  define p where "p = length (split CHR '':'' a)"
  define st2 where "st2 = padDataButtons r st1"
  note bp = beginPacket_Inr [OF h]
  note bt = padDataButtons_frame [where r = r and st = st1]
  note mo = padDataMotion_Inr [OF m3 [folded st2_def]]
  note fp = finishPacket_Inr [OF fin]
  have i2: "snd st2 = 49 + p" by (simp add: st2_def bt(1) i1 p_def)
  have l2: "length (fst st2) = 100" by (simp add: st2_def bt(2) l1)
  have t2: "take 16 (fst st2) = take 16 h" by (simp add: st2_def bt(3) i1 t1)
  have l3: "length (fst st3) = 100" by (simp add: mo(2) l2)
  have t3: "take 16 (fst st3) = take 16 h" by (simp add: mo(4) i2 t2)
  have lh: "length h = 100" using bp(2) by (simp add: alloc_def)
  have ld: "length d = 100" by (simp add: fp(1) l3)
  have z: "fst st3 ! 8 = 0" "fst st3 ! 9 = 0" "fst st3 ! 10 = 0" "fst st3 ! 11 = 0"
    using nth_of_take [OF t3] bp(6-9) by simp_all
  have hi: "d ! k = fst st3 ! k" if "12 \<le> k" for k by (rule fp(4) [OF that])
  show ?thesis
  proof (rule that [OF a ld])
    have "readUInt16LE d 6 = readUInt16LE (fst st3) 6"
      by (rule readUInt16LE_take [OF fp(2)]) (simp_all add: ld l3)
    also have "\<dots> = readUInt16LE h 6"
      by (rule readUInt16LE_take [OF t3]) (simp_all add: lh l3)
    finally show "readUInt16LE d 6 = Inr 84" using bp(5) by (simp add: alloc_def)
    show "crcValid d" by (rule finishPacket_crcValid [OF fin z])
    have "readUInt32LE d 12 = readUInt32LE (fst st3) 12"
      by (rule readUInt32LE_nth) (simp_all add: ld l3 hi)
    also have "\<dots> = readUInt32LE h 12"
      by (rule readUInt32LE_take [OF t3]) (simp_all add: lh l3)
    finally show "readUInt32LE d 12 = Inr sid" using bp(10) by simp
    have "fst st3 ! (49 + p) = fst st2 ! (49 + p)"
      by (rule nth_of_take [OF mo(4) [of "50 + p"]]) (simp_all add: i2)
    moreover have "p < 51" using mo(3) by (simp add: i2 l2)
    then have "fst st2 ! (49 + p) = word_of_int (trigger_L2 r)"
      using padDataButtons_last [of st1 r] by (simp add: st2_def i1 l1 p_def)
    ultimately show "d ! (49 + length (split CHR '':'' a)) = word_of_int (trigger_L2 r)"
      by (simp add: hi p_def)
    show "d ! (50 + length (split CHR '':'' a)) = (if trackPad_first_isActive r then 1 else 0)"
      using mo(5) by (simp add: hi i2 p_def ac_simps)
    show "d ! (51 + length (split CHR '':'' a)) = word_of_int (trackPad_first_id r)"
      using mo(6) by (simp add: hi i2 p_def ac_simps)
    have "readUInt16LE d (52 + p) = readUInt16LE (fst st3) (52 + p)"
      by (rule readUInt16LE_nth) (simp_all add: ld l3 hi)
    then show "readUInt16LE d (52 + length (split CHR '':'' a)) = Inr (trackPad_first_x r)"
      using mo(7) by (simp add: i2 p_def ac_simps)
    have "readUInt32LE d (62 + p) = readUInt32LE (fst st3) (62 + p)"
      by (rule readUInt32LE_nth) (simp_all add: ld l3 hi)
    then show "readUInt32LE d (62 + length (split CHR '':'' a)) = Inr (toUint32 (motionTimestamp_low r))"
      using mo(8) by (simp add: i2 p_def ac_simps)
  qed
qed

text \<open>Every datagram \<open>handleReport\<close> sends carries the buffer \<open>padDataRsp\<close> built.\<close>

lemma handleReport_sent:
  assumes "handleReport env now s d = (s', sent, errs)" "dg \<in> set sent"
  shows "padDataRsp env (serverId s) (meta d) (report d) = Inr (payload dg)"
proof (cases "socket s")
  case None
  with assms show ?thesis by (simp add: handleReport_def)
next
  case (Some sock)
  obtain cl reg where g: "getClientsForReport env now (clients s) (meta d) = (cl, reg)"
    by (cases "getClientsForReport env now (clients s) (meta d)")
  show ?thesis
  proof (cases "padDataRsp env (serverId s) (meta d) (report d)")
    case (Inl e)
    with assms Some g show ?thesis
      by (auto simp: handleReport_def Let_def split: if_splits)
  next
    case (Inr b)
    with assms Some g show ?thesis
      by (auto simp: handleReport_def Let_def split: if_splits)
  qed
qed


section \<open>Lemmas on replies\<close>

lemma fill_frame:
  "index \<le> length buf \<Longrightarrow> take index (fill buf data index) = take index buf"
  "length data = length buf - index \<Longrightarrow> index \<le> length buf \<Longrightarrow>
     length (fill buf data index) = length buf"
proof -
  show "take index (fill buf data index) = take index buf" if "index \<le> length buf"
    using that by (simp add: fill_def)
  show "length (fill buf data index) = length buf"
    if l: "length data = length buf - index" and i: "index \<le> length buf"
  proof (cases "length buf - index = 0")
    case True
    with i show ?thesis by (simp add: fill_def)
  next
    case False
    have "length buf - index \<le> length buf * length data"
      using False l by (cases "length buf") simp_all
    then have "length buf - index \<le> length (concat (replicate (length buf) data))"
      by (simp add: length_concat sum_list_replicate)
    with i show ?thesis by (simp add: fill_def)
  qed
qed

lemma sendPacket_Inr:
  assumes "sendPacket s clientEndpoint data protocolVer = Inr dg"
  shows "crcValid (payload dg)"
    and "length (payload dg) = length data + 16"
    and "readUInt16LE (payload dg) 6 = Inr (int (length data))"
    and "readUInt32LE (payload dg) 12 = Inr (serverId s)"
    and "dest_port dg = port clientEndpoint" and "dest_address dg = address clientEndpoint"
proof -
  from assms obtain st d where
    b: "beginPacket (serverId s) (alloc (length data + 16)) protocolVer = Inr st" and
    f: "finishPacket (fill (fst st) data (snd st)) = Inr d" and
    dg: "dg = \<lparr>dest_port = port clientEndpoint, dest_address = address clientEndpoint,
               payload = d\<rparr>"
    unfolding sendPacket_def Let_def
    by (auto dest!: bindE_Inr split: prod.splits option.splits)
  obtain h i where st: "st = (h, i)" by (cases st)
  note bp = beginPacket_Inr [OF b [unfolded st]]
  define b' where "b' = fill h data 16"
  have lh: "length h = length data + 16" using bp(2) by (simp add: alloc_def)
  have t: "take 16 b' = take 16 h" by (simp add: b'_def fill_frame(1) lh)
  have l: "length b' = length data + 16" by (simp add: b'_def fill_frame(2) lh)
  from f have f': "finishPacket b' = Inr d" by (simp add: st bp(1) b'_def)
  note fp = finishPacket_Inr [OF f']
  have z: "b' ! 8 = 0" "b' ! 9 = 0" "b' ! 10 = 0" "b' ! 11 = 0"
    using nth_of_take [OF t] bp(6-9) by simp_all
  show "crcValid (payload dg)" using finishPacket_crcValid [OF f' z] by (simp add: dg)
  show "length (payload dg) = length data + 16" by (simp add: dg fp(1) l)
  have "readUInt16LE d 6 = readUInt16LE b' 6"
    by (rule readUInt16LE_take [OF fp(2)]) (simp_all add: fp(1))
  also have "\<dots> = readUInt16LE h 6"
    by (rule readUInt16LE_take [OF t]) (simp_all add: l lh)
  finally show "readUInt16LE (payload dg) 6 = Inr (int (length data))"
    using bp(5) by (simp add: dg alloc_def)
  have "readUInt32LE d 12 = readUInt32LE b' 12"
    by (rule readUInt32LE_nth) (simp_all add: fp(1) fp(4))
  also have "\<dots> = readUInt32LE h 12"
    by (rule readUInt32LE_take [OF t]) (simp_all add: l lh)
  finally show "readUInt32LE (payload dg) 12 = Inr (serverId s)" using bp(10) by (simp add: dg)
  show "dest_port dg = port clientEndpoint" "dest_address dg = address clientEndpoint"
    by (simp_all add: dg)
qed

lemma listPorts_sent:
  "dg \<in> set (fst (listPorts env s clientEndpoint data index outBuffer requests)) \<Longrightarrow>
   \<exists>body. sendPacket s clientEndpoint body 1001 = Inr dg"
proof (induction env s clientEndpoint data index outBuffer requests
    rule: listPorts.induct)
  case (1 env s clientEndpoint data index outBuffer)
  then show ?case by simp
next
  case (2 env s clientEndpoint data index outBuffer i rest)
  then show ?case
    by (auto simp: Let_def split: option.splits sum.splits prod.splits)
qed

lemma onMessage_sent:
  assumes "onMessage env now s data clientEndpoint = (s', sent, errs)" "dg \<in> set sent"
  shows "\<exists>body. sendPacket s clientEndpoint body 1001 = Inr dg"
proof (cases "readHeader env data")
  case (Inl e)
  with assms show ?thesis by (simp add: onMessage_def split: if_splits)
next
  case (Inr p)
  obtain d mt where p: "p = (d, mt)" by (cases p)
  consider (version) "mt = DSUC_VersionReq env"
    | (ports) "mt \<noteq> DSUC_VersionReq env" "mt = DSUC_ListPorts env"
    | (other) "mt \<noteq> DSUC_VersionReq env" "mt \<noteq> DSUC_ListPorts env"
    by blast
  then show ?thesis
  proof cases
    case version
    show ?thesis
    proof (cases "versionRsp env s clientEndpoint")
      case (Inl e)
      with assms Inr p version show ?thesis by (simp add: onMessage_def split: if_splits)
    next
      case (Inr x)
      with assms \<open>readHeader env data = Inr p\<close> p version have "dg = x"
        by (auto simp: onMessage_def split: if_splits)
      with Inr show ?thesis unfolding versionRsp_def by (auto dest!: bindE_Inr)
    qed
  next
    case ports
    from assms Inr p ports have
      "sent = [] \<or> (\<exists>rq. sent = fst (listPorts env s clientEndpoint d 24 (alloc 16) rq))"
      by (simp add: onMessage_def split: if_splits sum.splits prod.splits option.splits)
        (metis fst_conv)+
    with assms(2) show ?thesis by (auto dest: listPorts_sent)
  next
    case other
    with assms Inr p show ?thesis
      by (simp add: onMessage_def split: if_splits sum.splits)
  qed
qed


section \<open>The worked example, evaluated\<close>

lemmas example_defs = handleReport_def getClientsForReport_def padDataRsp_def padDataMeta_def
  padDataButtons_def padDataMotion_def beginPacket_def finishPacket_def put_def putNext_def
  putHere_def orIf_def skip_def put16_def put32_def putFloat_def putMac_def toUint32_def
  setByte_def orByte_def writeUInt16LE_def writeUInt32LE_def writeFloatLE_def alloc_def
  bindE_def charCode_def parseInt16_def hexDigit_def isWhiteSpace_def mapDelete_def
  example_server_def example_data_def example_meta_def example_report_def example_client_def
  dsu_def start_def stop_def newUdpServer_def Let_def

lemma example_sent:
  "\<exists>d. fst (snd (handleReport dsu 2000 example_server example_data)) =
     [\<lparr>dest_port = 5000, dest_address = ''10.0.0.2'', payload = d\<rparr>]"
  by (simp add: example_defs)

lemma example_split: "split CHR '':'' ''00:11:22:33:44:55'' = [''00'', ''11'', ''22'', ''33'', ''44'', ''55'']"
  by simp

lemma example_bytes:
  "example_datagram ! 56 = 1" "example_datagram ! 57 = 3" "example_datagram ! 58 = 2"
  "readUInt16LE example_datagram 59 = Inr 0x0401"
  "readUInt32LE example_datagram 69 = Inr 0x010A0B0C"
  by (simp_all add: example_datagram_def example_defs readUInt16LE_def readUInt32LE_def)


section \<open>Lemmas on the sweep\<close>

lemma someTimeOk_iff: "someTimeOk env now ts = (\<exists>t \<in> set ts. fresh env now t)"
  by (induction ts) (auto simp: fresh_def)

lemma someMacTimeOk_iff: "someMacTimeOk env now ms = (\<exists>(mac, t) \<in> set ms. fresh env now t)"
  by (induction ms) (auto simp: fresh_def)

lemma arrayGet_Some: "arrayGet xs i = Some x \<Longrightarrow> i < int (length xs) \<and> x \<in> set xs"
  by (auto simp: arrayGet_def split: if_splits)

lemma interested_hasFresh: "interested env now m t \<Longrightarrow> hasFresh env now t"
  unfolding interested_def hasFresh_def
  by (auto dest: arrayGet_Some map_of_SomeD split: option.splits)

text \<open>The three tests of the first loop are the interest rule.\<close>

lemma interested_code:
  "interested env now m t =
     (now - timeForAllPads t < ClientTimeoutLimit env \<or>
      (padId m < int (length (timeForPadById t)) \<and>
       (case arrayGet (timeForPadById t) (padId m) of
          None \<Rightarrow> False
        | Some time \<Rightarrow> now - time < ClientTimeoutLimit env)) \<or>
      (case macAddress m of
         None \<Rightarrow> False
       | Some mac \<Rightarrow>
           (case map_of (timeForPadByMac t) mac of
              None \<Rightarrow> False
            | Some time \<Rightarrow> now - time < ClientTimeoutLimit env)))"
  unfolding interested_def fresh_def
  by (auto dest: arrayGet_Some split: option.splits)

lemma sweep_eq:
  "sweep env now m registry =
     (map fst (filter (\<lambda>(k, t). interested env now m t) registry),
      map fst (filter (\<lambda>(k, t). \<not> hasFresh env now t) registry))"
proof (induction registry)
  case Nil
  show ?case by simp
next
  case (Cons e registry)
  obtain info t where e: "e = (info, t)" by (cases e)
  show ?case
  proof (cases "interested env now m t")
    case True
    then have "hasFresh env now t" by (rule interested_hasFresh)
    with True Cons show ?thesis
      using True [unfolded interested_code]
      by (auto simp: e Let_def)
  next
    case False
    have h: "hasFresh env now t =
        (someTimeOk env now (timeForPadById t) \<or> someMacTimeOk env now (timeForPadByMac t))"
      using False unfolding interested_def hasFresh_def someTimeOk_iff someMacTimeOk_iff
      by auto
    from False Cons show ?thesis
      using False [unfolded interested_code]
      by (auto simp: e Let_def h)
  qed
qed

lemma fold_mapDelete:
  "fold (\<lambda>client reg. mapDelete reg client) dels registry =
     filter (\<lambda>(k, t). ref k \<notin> ref ` set dels) registry"
proof (induction dels arbitrary: registry)
  case Nil
  show ?case by simp
next
  case (Cons d dels)
  have "fold (\<lambda>client reg. mapDelete reg client) (d # dels) registry =
      filter (\<lambda>(k, t). ref k \<notin> ref ` set dels) (mapDelete registry d)"
    by (simp add: Cons)
  also have "\<dots> = filter (\<lambda>(k, t). ref k \<notin> ref ` set (d # dels)) registry"
    unfolding mapDelete_def filter_filter by (rule filter_cong) auto
  finally show ?case .
qed

lemma distinctKeys_unique:
  assumes "distinctKeys registry" "(k, t) \<in> set registry" "(k', t') \<in> set registry"
    "ref k = ref k'"
  shows "k = k' \<and> t = t'"
proof -
  from assms(1) have "inj_on (\<lambda>(k, t). ref k) (set registry)"
    unfolding distinctKeys_def by (simp add: distinct_map)
  from inj_onD [OF this, of "(k, t)" "(k', t')"] assms(2-4) show ?thesis by simp
qed

lemma getClientsForReport_eq:
  assumes "distinctKeys registry"
  shows "getClientsForReport env now registry m =
     (map fst (filter (\<lambda>(k, t). interested env now m t) registry),
      filter (\<lambda>(k, t). hasFresh env now t) registry)"
proof -
  have "filter (\<lambda>(k, t). ref k \<notin> ref ` set (map fst (filter (\<lambda>(k, t). \<not> hasFresh env now t) registry))) registry
      = filter (\<lambda>(k, t). hasFresh env now t) registry"
  proof (rule filter_cong [OF refl])
    fix e assume e: "e \<in> set registry"
    obtain k t where kt: "e = (k, t)" by (cases e)
    have "ref k \<in> ref ` set (map fst (filter (\<lambda>(k, t). \<not> hasFresh env now t) registry))
        \<longleftrightarrow> \<not> hasFresh env now t"
    proof
      assume "ref k \<in> ref ` set (map fst (filter (\<lambda>(k, t). \<not> hasFresh env now t) registry))"
      then obtain k' t' where "(k', t') \<in> set registry" "\<not> hasFresh env now t'" "ref k = ref k'"
        by auto
      with distinctKeys_unique [OF assms e [unfolded kt]] show "\<not> hasFresh env now t"
        by blast
    next
      assume "\<not> hasFresh env now t"
      with e kt show "ref k \<in> ref ` set (map fst (filter (\<lambda>(k, t). \<not> hasFresh env now t) registry))"
        by force
    qed
    then show "(case e of (k, t) \<Rightarrow>
          ref k \<notin> ref ` set (map fst (filter (\<lambda>(k, t). \<not> hasFresh env now t) registry)))
        = (case e of (k, t) \<Rightarrow> hasFresh env now t)"
      by (simp add: kt)
  qed
  then show ?thesis
    by (simp add: getClientsForReport_def sweep_eq fold_mapDelete)
qed


section \<open>Lemmas on requests\<close>

lemma uint_byte_eq: "(uint (w :: byte) = 68) = (w = 68)" "(uint (w :: byte) = 83) = (w = 83)"
  "(uint (w :: byte) = 85) = (w = 85)" "(uint (w :: byte) = 67) = (w = 67)"
  by (auto simp: word_uint_eq_iff)

lemma hasMagic_code:
  "hasMagic d =
     (getByte d 0 = Some (charCode CHR ''D'') \<and> getByte d 1 = Some (charCode CHR ''S'') \<and>
      getByte d 2 = Some (charCode CHR ''U'') \<and> getByte d 3 = Some (charCode CHR ''C''))"
  by (cases d rule: hasMagic.cases)
    (auto simp: getByte_def charCode_def uint_byte_eq)

lemma zeroCrc_setByte:
  "12 \<le> length d \<Longrightarrow> setByte (setByte (setByte (setByte d 8 0) 9 0) 10 0) 11 0 = zeroCrc d"
  by (simp add: setByte_def zeroCrc_def)

lemma length_zeroCrc [simp]: "length (zeroCrc d) = length d"
  by (simp add: zeroCrc_def)

lemma nth_zeroCrc: "12 \<le> k \<Longrightarrow> zeroCrc d ! k = d ! k"
  by (simp add: zeroCrc_def)

lemma readUInt32LE_Inr: "readUInt32LE d i = Inr v \<Longrightarrow> i + 4 \<le> length d"
  by (simp add: readUInt32LE_def split: if_splits)

lemma readUInt32LE_zeroCrc: "12 \<le> i \<Longrightarrow> readUInt32LE (zeroCrc d) i = readUInt32LE d i"
  by (rule readUInt32LE_nth) (simp_all add: nth_zeroCrc)

lemma readInt32LE_zeroCrc: "12 \<le> i \<Longrightarrow> readInt32LE (zeroCrc d) i = readInt32LE d i"
  by (simp add: readInt32LE_def readUInt32LE_zeroCrc)

lemma getByte_zeroCrc: "12 \<le> i \<Longrightarrow> getByte (zeroCrc d) i = getByte d i"
  by (simp add: getByte_def nth_zeroCrc)

text \<open>A header that is accepted: the version is not too high and the CRC is right.\<close>

lemma readHeader_Inr:
  assumes "readHeader env d = Inr (d', mt)"
  shows "\<not> versionTooHigh env d" "crcValid d" "d' = zeroCrc d" "readUInt32LE d 16 = Inr mt"
proof -
  from assms obtain v sz rc cid where
    v: "readUInt16LE d 4 = Inr v" "\<not> v > MaxProtocolVer env" and
    sz: "readUInt16LE d 6 = Inr sz" and
    rc: "readUInt32LE d 8 = Inr rc" and
    crc: "rc = crc32 (setByte (setByte (setByte (setByte d 8 0) 9 0) 10 0) 11 0)" and
    cid: "readUInt32LE (setByte (setByte (setByte (setByte d 8 0) 9 0) 10 0) 11 0) 12 = Inr cid" and
    mt: "readUInt32LE (setByte (setByte (setByte (setByte d 8 0) 9 0) 10 0) 11 0) 16 = Inr mt" and
    d': "d' = setByte (setByte (setByte (setByte d 8 0) 9 0) 10 0) 11 0"
    unfolding readHeader_def Let_def
    by (auto dest!: bindE_Inr split: if_splits)
  have len: "12 \<le> length d" using readUInt32LE_Inr [OF rc] by simp
  note z = zeroCrc_setByte [OF len]
  show "\<not> versionTooHigh env d" using v by (simp add: versionTooHigh_def)
  show "crcValid d" using rc crc by (simp add: crcValid_def z)
  show "d' = zeroCrc d" using d' by (simp add: z)
  show "readUInt32LE d 16 = Inr mt" using mt by (simp add: z readUInt32LE_zeroCrc)
qed

lemma checkPadRequests_Inl:
  "list_ex (\<lambda>i. case getByte d (index + i) of None \<Rightarrow> False | Some b \<Rightarrow> 3 < b) requests \<Longrightarrow>
   \<exists>e. checkPadRequests d index requests = Inl e"
  by (induction requests) (auto split: option.splits)

lemma onMessage_no_magic:
  assumes "\<not> hasMagic d"
  shows "onMessage env now s d clientEndpoint = (s, [], [])"
  unfolding onMessage_def using assms [unfolded hasMagic_code] by (rule if_not_P)

lemma onMessage_magic:
  assumes "hasMagic d"
  shows "onMessage env now s d clientEndpoint =
     (case readHeader env d of
        Inl e \<Rightarrow> (s, [], [e])
      | Inr (data, msgType) \<Rightarrow>
          if msgType = DSUC_VersionReq env then
            (case versionRsp env s clientEndpoint of
               Inl e \<Rightarrow> (s, [], [e])
             | Inr dg \<Rightarrow> (s, [dg], []))
          else if msgType = DSUC_ListPorts env then
            (case readInt32LE data 20 of
               Inl e \<Rightarrow> (s, [], [e])
             | Inr numOfPadRequests \<Rightarrow>
                 if numOfPadRequests < 0 \<or> numOfPadRequests > 4 then
                   (s, [], [PadRequestsOutOfRange numOfPadRequests])
                 else
                   (case checkPadRequests data 24 [0 ..< nat numOfPadRequests] of
                      Inl e \<Rightarrow> (s, [], [e])
                    | Inr u \<Rightarrow>
                        (case listPorts env s clientEndpoint data 24 (alloc 16)
                                [0 ..< nat numOfPadRequests] of
                           (sent, None) \<Rightarrow> (s, sent, [])
                         | (sent, Some e) \<Rightarrow> (s, sent, [e]))))
          else if msgType = DSUC_PadDataReq env then
            (case padDataReq env now s data clientEndpoint of
               Inl e \<Rightarrow> (s, [], [e])
             | Inr s' \<Rightarrow> (s', [], []))
          else (s, [], []))"
  unfolding onMessage_def using assms [unfolded hasMagic_code] by (rule if_P)

text \<open>What \<open>onMessage\<close> does when the body raises before anything is sent.\<close>

lemma onMessage_error:
  assumes "hasMagic d"
    and "versionTooHigh env d \<or> \<not> crcValid d \<or> padRequestsOutOfRange env d \<or>
         padIndexOutOfRange env d"
  shows "\<exists>e. onMessage env now s d clientEndpoint = (s, [], [e])"
proof (cases "readHeader env d")
  case (Inl e)
  with assms(1) show ?thesis by (simp add: onMessage_magic)
next
  case (Inr p)
  obtain d' mt where p: "p = (d', mt)" by (cases p)
  note h = readHeader_Inr [OF Inr [unfolded p]]
  from assms(2) h(1,2) have l: "padRequestsOutOfRange env d \<or> padIndexOutOfRange env d"
    by blast
  then have lp: "isListPorts env d"
    by (auto simp: padRequestsOutOfRange_def padIndexOutOfRange_def)
  with h(4) have mt: "mt = DSUC_ListPorts env" "mt \<noteq> DSUC_VersionReq env"
    by (simp_all add: isListPorts_def)
  show ?thesis
  proof (cases "readInt32LE d 20")
    case (Inl e)
    with assms(1) \<open>readHeader env d = Inr p\<close> p mt h(3) show ?thesis
      by (simp add: onMessage_magic readInt32LE_zeroCrc)
  next
    case n: (Inr n)
    show ?thesis
    proof (cases "n < 0 \<or> 4 < n")
      case True
      with assms(1) \<open>readHeader env d = Inr p\<close> p mt h(3) n show ?thesis
        by (simp add: onMessage_magic readInt32LE_zeroCrc)
    next
      case False
      with l n have "list_ex (\<lambda>i. case getByte d (24 + i) of None \<Rightarrow> False | Some b \<Rightarrow> 3 < b)
          [0 ..< nat n]"
        by (auto simp: padRequestsOutOfRange_def padIndexOutOfRange_def)
      then have "list_ex (\<lambda>i. case getByte (zeroCrc d) (24 + i) of None \<Rightarrow> False | Some b \<Rightarrow> 3 < b)
          [0 ..< nat n]"
        by (simp add: getByte_zeroCrc)
      from checkPadRequests_Inl [OF this] obtain e
        where "checkPadRequests (zeroCrc d) 24 [0 ..< nat n] = Inl e" ..
      with assms(1) \<open>readHeader env d = Inr p\<close> p mt h(3) n False show ?thesis
        by (simp add: onMessage_magic readInt32LE_zeroCrc)
    qed
  qed
qed


section \<open>Lemmas on the server's state\<close>

text \<open>The keys of the registry stay distinct objects, from the empty registry on.\<close>

lemma distinctKeys_new: "distinctKeys (clients (newUdpServer drawn))"
  by (simp add: distinctKeys_def newUdpServer_def)

lemma distinctKeys_filter: "distinctKeys registry \<Longrightarrow> distinctKeys (filter P registry)"
  unfolding distinctKeys_def by (simp add: distinct_map_filter)

lemma map_ref_update:
  "map (\<lambda>(k, t). ref k) (map (\<lambda>(k', v). if ref k' = r then (k', f v) else (k', v)) registry)
     = map (\<lambda>(k, t). ref k) registry"
  by (induction registry) auto

lemma distinctKeys_mapSet:
  assumes "distinctKeys registry"
  shows "distinctKeys (mapSet registry k v)"
proof (cases "mapHas registry k")
  case True
  then have "mapSet registry k v =
      map (\<lambda>(k', v'). if ref k' = ref k then (k', (\<lambda>_. v) v') else (k', v')) registry"
    by (simp add: mapSet_def)
  then show ?thesis
    unfolding distinctKeys_def using assms [unfolded distinctKeys_def]
    by (simp only: map_ref_update)
next
  case False
  with assms show ?thesis
    by (auto simp: mapSet_def mapHas_def distinctKeys_def list_ex_iff)
qed

lemma distinctKeys_mapUpdate:
  assumes "distinctKeys registry" "mapUpdate registry k f = Inr registry'"
  shows "distinctKeys registry'"
proof -
  from assms(2) have "registry' =
      map (\<lambda>(k', v). if ref k' = ref k then (k', f v) else (k', v)) registry"
    by (simp add: mapUpdate_def split: if_splits)
  then show ?thesis
    unfolding distinctKeys_def using assms(1) [unfolded distinctKeys_def]
    by (simp only: map_ref_update)
qed

lemma padDataReq_distinctKeys:
  assumes "distinctKeys (clients s)" "padDataReq env now s d clientEndpoint = Inr s'"
  shows "distinctKeys (clients s')"
proof -
  define reg where "reg = (if \<not> mapHas (clients s) clientEndpoint
      then mapSet (clients s) clientEndpoint (newClientRequestTimes env) else clients s)"
  from assms(2) obtain f reg' where
    u: "mapUpdate reg clientEndpoint f = Inr reg'" and s': "s' = s\<lparr>clients := reg'\<rparr>"
    unfolding padDataReq_def Let_def reg_def [symmetric]
    by (auto dest!: bindE_Inr)
  from assms(1) have "distinctKeys reg" by (simp add: reg_def distinctKeys_mapSet)
  from distinctKeys_mapUpdate [OF this u] show ?thesis by (simp add: s')
qed

lemma serverEvent_distinctKeys:
  assumes "distinctKeys (clients s)" "serverEvent env now s ev = (s', sent, errs)"
  shows "distinctKeys (clients s')"
proof (cases ev)
  case (Message d clientEndpoint)
  with assms(2) have o: "onMessage env now s d clientEndpoint = (s', sent, errs)"
    by (simp add: serverEvent_def)
  show ?thesis
  proof (cases "\<exists>d'. padDataReq env now s d' clientEndpoint = Inr s'")
    case True
    with assms(1) show ?thesis by (auto dest: padDataReq_distinctKeys)
  next
    case False
    with o have "s' = s"
      unfolding onMessage_def
      by (auto split: if_splits sum.splits prod.splits option.splits)
    with assms(1) show ?thesis by simp
  qed
next
  case (Report d)
  with assms(2) have h: "handleReport env now s d = (s', sent, errs)"
    by (simp add: serverEvent_def)
  show ?thesis
  proof (cases "socket s")
    case None
    with h assms(1) show ?thesis by (simp add: handleReport_def)
  next
    case (Some sock)
    with h have "clients s' = snd (getClientsForReport env now (clients s) (meta d))"
      by (auto simp: handleReport_def Let_def split: prod.splits if_splits sum.splits)
    with assms(1) show ?thesis
      by (simp add: getClientsForReport_eq distinctKeys_filter)
  qed
qed

text \<open>
  The server id is the one drawn at construction: \<open>start\<close>, \<open>stop\<close> and the two handlers
  leave it, and every datagram sent carries it at offset 12.
\<close>

lemma serverId_start_stop:
  "serverId (start sock s) = serverId s" "serverId (stop s) = serverId s"
  "serverId (newUdpServer drawn) = drawn"
  by (simp_all add: start_def stop_def newUdpServer_def split: option.splits)

lemma sent_datagram_serverId:
  assumes "serverEvent env now s ev = (s', sent, errs)" "dg \<in> set sent"
  shows "readUInt32LE (payload dg) 12 = Inr (serverId s)"
proof (cases ev)
  case (Message data clientEndpoint)
  with assms have "onMessage env now s data clientEndpoint = (s', sent, errs)"
    by (simp add: serverEvent_def)
  from onMessage_sent [OF this assms(2)] obtain body
    where "sendPacket s clientEndpoint body 1001 = Inr dg" ..
  then show ?thesis by (rule sendPacket_Inr(4))
next
  case (Report d)
  with assms have "handleReport env now s d = (s', sent, errs)"
    by (simp add: serverEvent_def)
  from handleReport_sent [OF this assms(2)]
  have "padDataRsp env (serverId s) (meta d) (report d) = Inr (payload dg)" .
  then show ?thesis by (rule padDataRsp_Inr)
qed


section \<open>Lemmas on MAC strings\<close>

text \<open>A string splits into one group more than it has separators.\<close>

lemma split_not_Nil: "split c s \<noteq> []"
  by (induction s) (auto split: list.splits)

lemma length_split: "length (split c s) = Suc (count_list s c)"
  by (induction s) (auto simp: split_not_Nil split: list.splits)

text \<open>
  With a MAC string of another shape every offset after the MAC moves in \<open>handleReport\<close>:
  for the empty string, one group, the trigger L2 of the example lands at offset 50, the
  flag of touch 1 at offset 51 and its id at offset 52. The port-info reply writes six zero bytes for such a meta, and the battery status
  after them at offset 14 of its body.
\<close>

lemma example_empty_mac:
  "\<exists>d. fst (snd (handleReport dsu 2000 example_server
            (example_data\<lparr>meta := example_meta\<lparr>macAddress := Some []\<rparr>\<rparr>))) =
          [\<lparr>dest_port = 5000, dest_address = ''10.0.0.2'', payload = d\<rparr>] \<and>
        length d = 100 \<and> d ! 50 = 10 \<and> d ! 51 = 1 \<and> d ! 52 = 3"
  "\<exists>b. portInfo dsu (alloc 16) (example_meta\<lparr>macAddress := Some [], batteryStatus := 5\<rparr>) = Inr b \<and>
        length b = 16 \<and> b ! 7 = 1 \<and> b ! 8 = 0 \<and> b ! 13 = 0 \<and> b ! 14 = 5"
  by (simp_all add: example_defs portInfo_def upt_conv_Cons)

section \<open>Properties\<close>

subsection \<open>A report while the socket is closed\<close>

text \<open>
  C10. When the server's socket is null, \<open>handleReport\<close> does nothing for every report:
  no datagram is sent, no error is raised, and the server, its client registry
  included, is as before (no sweep runs).
\<close>

theorem handleReport_socket_null:
  "socket s = None \<Longrightarrow> handleReport env now s d = (s, [], [])"
  by (simp add: handleReport_def)

text \<open>
  At the time 7000 the example's client is stale; with the socket open the sweep would
  drop it, on the stopped server it stays.
\<close>

theorem handleReport_socket_null_witness:
  "socket (stop example_server) = None \<and>
   handleReport dsu 7000 (stop example_server) example_data = (stop example_server, [], []) \<and>
   clients (stop example_server) \<noteq> []"
proof -
  have closed: "socket (stop example_server) = None"
    by (simp add: stop_def example_server_def start_def newUdpServer_def)
  have kept: "clients (stop example_server) \<noteq> []"
    by (simp add: stop_def example_server_def start_def newUdpServer_def)
  from handleReport_socket_null [OF closed, of dsu 7000 example_data] closed kept
  show ?thesis by simp
qed

subsection \<open>Removing the controller of slot 0\<close>

text \<open>
  C5, on the code: \<open>removeController(0)\<close> changes nothing and unsubscribes nothing,
  whatever slot 0 holds, and \<open>removeController()\<close> on four taken slots leaves slot 0
  taken.
\<close>

theorem removeController_0_rejected:
  "removeController (Some 0) s = (s, []) \<and>
   removeController None example_full_server =
     (example_full_server\<lparr>controllers := [Some (example_slot 1), None, None, None]\<rparr>, [2, 3, 4])"
  by (simp add: removeController_def removeControllerAt_def example_full_server_def
      newUdpServer_def example_slot_def upt_conv_Cons)

subsection \<open>The MAC string of a pad-data request\<close>

text \<open>
  C8, on the code: the byte \<open>0x0f\<close> is formatted as the single digit \<open>f\<close>, so the six
  bytes \<open>0f 0a bc 00 10 ff\<close> give a string of 16 characters, not of 17.
\<close>

theorem formatMacPart_15:
  "formatMacPart (Some 15) = Inr ''f'' \<and>
   bindE (macParts [0x0f, 0x0a, 0xbc, 0x00, 0x10, 0xff] [0 ..< 6]) (\<lambda>parts. Inr (join '':'' parts))
     = Inr ''f:0a:bc:00:10:ff''"
  by (simp add: formatMacPart_def toString16.simps hexChar_def upt_conv_Cons getByte_def
      bindE_def)

subsection \<open>The server id\<close>

text \<open>
  C9, on the code: the draw can give \<open>4294967296\<close>, which is not below \<open>2 ^ 32\<close>; with it
  \<open>beginPacket\<close> fails on the write of the server id at offset 12.
\<close>

theorem serverId_draw_above_u32:
  "serverId_drawn 4294967296 \<and> \<not> (4294967296 < (2::int) ^ 32) \<and>
   beginPacket 4294967296 (alloc 100) 1001 = Inl RangeError"
  by (simp add: serverId_drawn_def beginPacket_def alloc_def setByte_def writeUInt16LE_def
      writeUInt32LE_def bindE_def)


subsection \<open>The length of a pad-data datagram\<close>

text \<open>
  C3. Every pad-data datagram \<open>handleReport\<close> sends is exactly 100 bytes long, and its
  payload-length field, the little-endian u16 at offset 6, is 84: the length less the 16
  bytes of the header.
\<close>

theorem handleReport_datagram_100_bytes:
  assumes "handleReport env now s d = (s', sent, errs)" and "dg \<in> set sent"
  shows "length (payload dg) = 100 \<and>
         readUInt16LE (payload dg) 6 = Inr 84 \<and>
         readUInt16LE (payload dg) 6 = Inr (int (length (payload dg)) - 16)"
proof -
  from handleReport_sent [OF assms]
  have "padDataRsp env (serverId s) (meta d) (report d) = Inr (payload dg)" .
  then show ?thesis by (rule padDataRsp_Inr) simp
qed

theorem handleReport_datagram_100_bytes_witness:
  "fst (snd (handleReport dsu 2000 example_server example_data)) \<noteq> [] \<and>
   length example_datagram = 100 \<and>
   readUInt16LE example_datagram 6 = Inr 84"
proof -
  obtain s' sent errs where h: "handleReport dsu 2000 example_server example_data = (s', sent, errs)"
    by (cases "handleReport dsu 2000 example_server example_data")
  from example_sent h obtain dg where sent: "sent = [dg]" by auto
  from h sent have e: "example_datagram = payload dg" by (simp add: example_datagram_def)
  from handleReport_datagram_100_bytes [OF h, of dg] sent h e show ?thesis by simp
qed

subsection \<open>The layout of a pad-data datagram after the triggers\<close>

text \<open>
  C1, on the code: in the example's datagram offset 56 is not a reserved zero but the
  flag of touch 1 (which is active); offset 57 holds the id 3, not the flag; offset 58
  holds the low byte of X, not the id; the u16 at 59 is not X and the u32 at 69 is not
  the low half of the motion timestamp.
\<close>

theorem padData_offset_56_counterexample:
  "fst (snd (handleReport dsu 2000 example_server example_data)) \<noteq> [] \<and>
   length example_datagram = 100 \<and>
   example_datagram ! 56 \<noteq> 0 \<and>
   example_datagram ! 57 \<noteq> (if trackPad_first_isActive example_report then 1 else 0) \<and>
   example_datagram ! 58 \<noteq> word_of_int (trackPad_first_id example_report) \<and>
   readUInt16LE example_datagram 59 \<noteq> Inr (trackPad_first_x example_report) \<and>
   readUInt32LE example_datagram 69 \<noteq> Inr (toUint32 (motionTimestamp_low example_report))"
proof -
  obtain d where d: "fst (snd (handleReport dsu 2000 example_server example_data)) =
     [\<lparr>dest_port = 5000, dest_address = ''10.0.0.2'', payload = d\<rparr>]"
    using example_sent by blast
  obtain s' errs where h: "handleReport dsu 2000 example_server example_data =
      (s', [\<lparr>dest_port = 5000, dest_address = ''10.0.0.2'', payload = d\<rparr>], errs)"
    using d by (cases "handleReport dsu 2000 example_server example_data") simp
  have "padDataRsp dsu (serverId example_server) (meta example_data) (report example_data)
      = Inr d"
    using handleReport_sent [OF h, of "\<lparr>dest_port = 5000, dest_address = ''10.0.0.2'', payload = d\<rparr>"]
    by simp
  then have "length d = 100" by (rule padDataRsp_Inr)
  then have "length example_datagram = 100" by (simp add: example_datagram_def d)
  with d example_bytes show ?thesis
    by (simp add: example_report_def toUint32_def)
qed

text \<open>
  C1, as amended. In every pad-data datagram sent for a meta whose MAC address has six
  groups between colons, no byte is skipped after the trigger L2 at offset 55: the flag
  of touch 1 is at offset 56, its id at offset 57, its X at offsets 58 and 59 (little
  endian) and the low 32 bits of the motion timestamp at offsets 68 to 71 (little
  endian).
\<close>

theorem padData_touch_at_56:
  assumes "handleReport env now s d = (s', sent, errs)" and "dg \<in> set sent"
    and "macAddress (meta d) = Some a" and "length (split CHR '':'' a) = 6"
  shows "payload dg ! 55 = word_of_int (trigger_L2 (report d)) \<and>
         payload dg ! 56 = (if trackPad_first_isActive (report d) then 1 else 0) \<and>
         payload dg ! 57 = word_of_int (trackPad_first_id (report d)) \<and>
         readUInt16LE (payload dg) 58 = Inr (trackPad_first_x (report d)) \<and>
         readUInt32LE (payload dg) 68 = Inr (toUint32 (motionTimestamp_low (report d)))"
proof -
  from handleReport_sent [OF assms(1,2)]
  have "padDataRsp env (serverId s) (meta d) (report d) = Inr (payload dg)" .
  then show ?thesis
  proof (rule padDataRsp_Inr)
    fix a'
    assume "macAddress (meta d) = Some a'"
    with assms(3) have a': "a' = a" by simp
    assume "payload dg ! (49 + length (split CHR '':'' a')) = word_of_int (trigger_L2 (report d))"
      "payload dg ! (50 + length (split CHR '':'' a')) =
        (if trackPad_first_isActive (report d) then 1 else 0)"
      "payload dg ! (51 + length (split CHR '':'' a')) = word_of_int (trackPad_first_id (report d))"
      "readUInt16LE (payload dg) (52 + length (split CHR '':'' a')) = Inr (trackPad_first_x (report d))"
      "readUInt32LE (payload dg) (62 + length (split CHR '':'' a')) =
        Inr (toUint32 (motionTimestamp_low (report d)))"
    then show ?thesis by (simp add: a' assms(4))
  qed
qed

theorem padData_touch_at_56_witness:
  "fst (snd (handleReport dsu 2000 example_server example_data)) \<noteq> [] \<and>
   macAddress (meta example_data) = Some ''00:11:22:33:44:55'' \<and>
   length (split CHR '':'' ''00:11:22:33:44:55'') = 6 \<and>
   example_datagram ! 55 = 10 \<and> example_datagram ! 56 = 1 \<and> example_datagram ! 57 = 3 \<and>
   readUInt16LE example_datagram 58 = Inr 0x0102 \<and>
   readUInt32LE example_datagram 68 = Inr 0x0A0B0C0D"
proof -
  obtain s' sent errs where h: "handleReport dsu 2000 example_server example_data = (s', sent, errs)"
    by (cases "handleReport dsu 2000 example_server example_data")
  from example_sent h obtain dg where sent: "sent = [dg]" by auto
  from h sent have e: "example_datagram = payload dg" by (simp add: example_datagram_def)
  have m: "macAddress (meta example_data) = Some ''00:11:22:33:44:55''"
    by (simp add: example_data_def example_meta_def)
  have six: "length (split CHR '':'' ''00:11:22:33:44:55'') = 6" by simp
  from padData_touch_at_56 [OF h _ m six, of dg] sent h e m six show ?thesis
    by (simp add: example_data_def example_report_def toUint32_def)
qed


subsection \<open>The checksum of every datagram\<close>

text \<open>The CRC-32 of the example requests, each with its CRC field zeroed.\<close>

lemma example_crcs:
  "crc32 [68, 83, 85, 67, 0xE9, 3, 4, 0, 0, 0, 0, 0, 0x78, 0x56, 0x34, 0x12, 0, 0, 0x10, 0]
     = 3078339785"
  "crc32 [68, 83, 85, 67, 0xE9, 3, 12, 0, 0, 0, 0, 0, 0x78, 0x56, 0x34, 0x12,
      1, 0, 0x10, 0, 5, 0, 0, 0, 0, 1, 2, 3] = 3840389795"
  "crc32 [68, 83, 85, 67, 0xE9, 3, 12, 0, 0, 0, 0, 0, 0x78, 0x56, 0x34, 0x12,
      1, 0, 0x10, 0, 2, 0, 0, 0, 0, 4, 0, 0] = 1138117225"
  "crc32 [68, 83, 85, 67, 0xE9, 3, 12, 0, 0, 0, 0, 0, 0x78, 0x56, 0x34, 0x12,
      2, 0, 0x10, 0, 0, 0, 0x0f, 0x0a, 0xbc, 0, 0x10, 0xff] = 4209414578"
  by (simp_all add: crc32_def crc32_byte_def crc32_shift_def)

lemmas request_defs = onMessage_def readHeader_def versionRsp_def sendPacket_def fill_def
  readUInt16LE_def readUInt32LE_def readInt32LE_def getByte_def example_crcs upt_conv_Cons

lemma example_versionReq_sent:
  "\<exists>d. fst (snd (onMessage dsu 2000 example_server example_versionReq example_client)) =
     [\<lparr>dest_port = 5000, dest_address = ''10.0.0.2'', payload = d\<rparr>]"
  by (simp add: example_versionReq_def request_defs example_defs)

text \<open>
  C2. Every datagram the server sends, in reply to a message (a version reply, a
  port-info reply) or for a report (a pad-data datagram), carries at offset 8, as a
  little-endian u32, the CRC-32 of the whole datagram with the bytes 8 to 11 set to zero.
\<close>

theorem sent_datagram_crcValid:
  assumes "serverEvent env now s ev = (s', sent, errs)" and "dg \<in> set sent"
  shows "crcValid (payload dg)"
proof (cases ev)
  case (Message data clientEndpoint)
  with assms have "onMessage env now s data clientEndpoint = (s', sent, errs)"
    by (simp add: serverEvent_def)
  from onMessage_sent [OF this assms(2)] obtain body
    where "sendPacket s clientEndpoint body 1001 = Inr dg" ..
  then show ?thesis by (rule sendPacket_Inr(1))
next
  case (Report d)
  with assms have "handleReport env now s d = (s', sent, errs)"
    by (simp add: serverEvent_def)
  from handleReport_sent [OF this assms(2)]
  have "padDataRsp env (serverId s) (meta d) (report d) = Inr (payload dg)" .
  then show ?thesis by (rule padDataRsp_Inr)
qed

theorem sent_datagram_crcValid_witness:
  "fst (snd (serverEvent dsu 2000 example_server (Message example_versionReq example_client))) \<noteq> [] \<and>
   crcValid (payload (hd (fst (snd
     (serverEvent dsu 2000 example_server (Message example_versionReq example_client)))))) \<and>
   fst (snd (serverEvent dsu 2000 example_server (Report example_data))) \<noteq> [] \<and>
   crcValid example_datagram"
proof -
  obtain s1 sent1 errs1 where
    h1: "serverEvent dsu 2000 example_server (Message example_versionReq example_client)
      = (s1, sent1, errs1)"
    by (cases "serverEvent dsu 2000 example_server (Message example_versionReq example_client)")
  from example_versionReq_sent h1 obtain dg1 where sent1: "sent1 = [dg1]"
    by (auto simp: serverEvent_def)
  obtain s2 sent2 errs2 where
    h2: "serverEvent dsu 2000 example_server (Report example_data) = (s2, sent2, errs2)"
    by (cases "serverEvent dsu 2000 example_server (Report example_data)")
  from example_sent h2 obtain dg2 where sent2: "sent2 = [dg2]"
    by (auto simp: serverEvent_def)
  from h2 sent2 have e: "example_datagram = payload dg2"
    by (simp add: example_datagram_def serverEvent_def)
  from sent_datagram_crcValid [OF h1, of dg1] sent_datagram_crcValid [OF h2, of dg2]
    h1 h2 sent1 sent2 e
  show ?thesis by simp
qed


subsection \<open>Which clients get a report, and which are dropped\<close>

text \<open>
  C7. \<open>getClientsForReport(meta)\<close>, called at the time \<open>now\<close> on a registry (a \<open>Map\<close>, so
  with distinct keys), returns exactly the registered clients that are interested: those
  with a fresh all-pads timestamp, a fresh timestamp for the pad of the meta, or a fresh
  timestamp for the MAC address of the meta. It removes from the registry exactly the
  clients none of whose timestamps is fresh, so that afterwards every client in the
  registry has a fresh timestamp.
\<close>

theorem getClientsForReport_interest_eviction:
  assumes "distinctKeys registry"
    and "getClientsForReport env now registry m = (returned, registry')"
  shows "returned = map fst (filter (\<lambda>(k, t). interested env now m t) registry) \<and>
         registry' = filter (\<lambda>(k, t). hasFresh env now t) registry \<and>
         set registry - set registry' = {(k, t) \<in> set registry. \<not> hasFresh env now t} \<and>
         (\<forall>(k, t) \<in> set registry'. hasFresh env now t)"
  using assms(2) unfolding getClientsForReport_eq [OF assms(1)] by auto

theorem getClientsForReport_interest_eviction_witness:
  "distinctKeys example_registry \<and>
   fst (getClientsForReport dsu 7000 example_registry example_meta) = [fst (example_registry ! 0)] \<and>
   snd (getClientsForReport dsu 7000 example_registry example_meta) = take 2 example_registry \<and>
   hasFresh dsu 7000 (snd (example_registry ! 1)) \<and>
   \<not> interested dsu 7000 example_meta (snd (example_registry ! 1)) \<and>
   \<not> hasFresh dsu 7000 (snd (example_registry ! 2))"
proof -
  have d: "distinctKeys example_registry"
    by (simp add: distinctKeys_def example_registry_def)
  obtain returned registry' where
    g: "getClientsForReport dsu 7000 example_registry example_meta = (returned, registry')"
    by (cases "getClientsForReport dsu 7000 example_registry example_meta")
  have i: "interested dsu 7000 example_meta (snd (example_registry ! 0))"
    "\<not> interested dsu 7000 example_meta (snd (example_registry ! 1))"
    "\<not> interested dsu 7000 example_meta (snd (example_registry ! 2))"
    by (simp_all add: interested_def fresh_def arrayGet_def example_registry_def
        example_meta_def dsu_def)
  have f: "hasFresh dsu 7000 (snd (example_registry ! 0))"
    "hasFresh dsu 7000 (snd (example_registry ! 1))"
    "\<not> hasFresh dsu 7000 (snd (example_registry ! 2))"
    by (simp_all add: hasFresh_def fresh_def example_registry_def dsu_def)
  from getClientsForReport_interest_eviction [OF d g] g d i f show ?thesis
    by (simp add: example_registry_def)
qed


subsection \<open>Malformed requests\<close>

lemma example_malformed:
  "\<not> hasMagic example_bad_magic"
  "hasMagic example_version_1002" "versionTooHigh dsu example_version_1002"
  "hasMagic example_bad_crc" "\<not> crcValid example_bad_crc"
  "hasMagic example_listPorts_five" "padRequestsOutOfRange dsu example_listPorts_five"
  "hasMagic example_listPorts_pad4" "padIndexOutOfRange dsu example_listPorts_pad4"
  by (simp_all add: example_bad_magic_def example_version_1002_def example_bad_crc_def
      example_listPorts_five_def example_listPorts_pad4_def versionTooHigh_def crcValid_def
      zeroCrc_def padRequestsOutOfRange_def padIndexOutOfRange_def isListPorts_def
      readUInt16LE_def readUInt32LE_def readInt32LE_def getByte_def dsu_def example_crcs
      upt_conv_Cons)

text \<open>
  C4, on the code: the version request with the magic \<open>DSUS\<close> is dropped without a
  reply, and without an error on the error stream.
\<close>

theorem onMessage_bad_magic_counterexample:
  "\<not> hasMagic example_bad_magic \<and>
   onMessage dsu 2000 example_server example_bad_magic example_client = (example_server, [], [])"
  using example_malformed(1) by (simp add: onMessage_no_magic)

text \<open>
  C4, as amended. A datagram whose first four bytes are not \<open>DSUC\<close> is dropped in
  silence: no reply, no error, the server as before. A datagram with the magic \<open>DSUC\<close>
  whose declared version is greater than \<open>MaxProtocolVer\<close>, whose CRC does not match,
  whose \<open>numOfPadRequests\<close> is out of range or one of whose pad indices is out of range
  gets no reply either, and exactly one error is put on the error stream.
\<close>

theorem onMessage_malformed:
  "(\<not> hasMagic d \<longrightarrow> onMessage env now s d clientEndpoint = (s, [], [])) \<and>
   (hasMagic d \<and>
    (versionTooHigh env d \<or> \<not> crcValid d \<or> padRequestsOutOfRange env d \<or>
     padIndexOutOfRange env d) \<longrightarrow>
    (\<exists>e. onMessage env now s d clientEndpoint = (s, [], [e])))"
  using onMessage_no_magic onMessage_error by blast

theorem onMessage_malformed_witness:
  "\<not> hasMagic example_bad_magic \<and>
   onMessage dsu 2000 example_server example_bad_magic example_client = (example_server, [], []) \<and>
   hasMagic example_version_1002 \<and> versionTooHigh dsu example_version_1002 \<and>
   (\<exists>e. onMessage dsu 2000 example_server example_version_1002 example_client
      = (example_server, [], [e])) \<and>
   hasMagic example_bad_crc \<and> \<not> crcValid example_bad_crc \<and>
   (\<exists>e. onMessage dsu 2000 example_server example_bad_crc example_client
      = (example_server, [], [e])) \<and>
   hasMagic example_listPorts_five \<and> padRequestsOutOfRange dsu example_listPorts_five \<and>
   (\<exists>e. onMessage dsu 2000 example_server example_listPorts_five example_client
      = (example_server, [], [e])) \<and>
   hasMagic example_listPorts_pad4 \<and> padIndexOutOfRange dsu example_listPorts_pad4 \<and>
   (\<exists>e. onMessage dsu 2000 example_server example_listPorts_pad4 example_client
      = (example_server, [], [e]))"
  using example_malformed
    onMessage_malformed [of example_bad_magic dsu 2000 example_server example_client]
    onMessage_malformed [of example_version_1002 dsu 2000 example_server example_client]
    onMessage_malformed [of example_bad_crc dsu 2000 example_server example_client]
    onMessage_malformed [of example_listPorts_five dsu 2000 example_server example_client]
    onMessage_malformed [of example_listPorts_pad4 dsu 2000 example_server example_client]
  by blast

subsection \<open>Two requests of one peer\<close>

text \<open>
  C6, on the code: two pad-data requests from the address 10.0.0.2 and the port 5000,
  handed to \<open>onMessage\<close> with two \<open>AddressInfo\<close> objects, leave two entries in the
  registry, both for that address and port. Whatever \<open>registerPadRequest\<close> does, the
  second request applies it to a new record of its own and not to the record of the
  first.
\<close>

theorem onMessage_same_peer_two_entries:
  "address example_client_again = address example_client \<and>
   port example_client_again = port example_client \<and>
   map (\<lambda>(k, t). (address k, port k, t))
     (clients (fst (onMessage (dsu\<lparr>newClientRequestTimes := new, registerPadRequest := reg\<rparr>) 2100
        (fst (onMessage (dsu\<lparr>newClientRequestTimes := new, registerPadRequest := reg\<rparr>) 2000
                example_empty_server example_padDataReq example_client))
        example_padDataReq example_client_again)))
   = [(''10.0.0.2'', 5000, reg (Some 0) (Some 0) ''f:0a:bc:00:10:ff'' 2000 new),
      (''10.0.0.2'', 5000, reg (Some 0) (Some 0) ''f:0a:bc:00:10:ff'' 2100 new)]"
  by (simp add: example_padDataReq_def example_client_again_def example_empty_server_def
      request_defs example_defs padDataReq_def formatMacPart_def toString16.simps hexChar_def
      mapHas_def mapSet_def mapUpdate_def)

end
